theory Spec2Isabelle
  imports Complex_Main "HOL-Library.Word"
begin

section \<open>The Qt value types used by \<^verbatim>\<open>gltfexport.cpp\<close>\<close>

text \<open>
  A C++ \<^verbatim>\<open>int\<close> is a 32-bit two's complement word: \<open>+\<close>, \<open>-\<close> and \<open>*\<close> wrap around and
  \<open>sint\<close> reads the value. Positions in HOL lists are natural numbers; they become
  \<^verbatim>\<open>int\<close>s through \<open>of_nat\<close> where the source stores or prints them.
\<close>

type_synonym cint = "32 word"

text \<open>
  \<^verbatim>\<open>QJsonValue\<close>: one constructor per \<^verbatim>\<open>QJsonValue::Type\<close>. \<^verbatim>\<open>Undefined\<close> is the value Qt
  returns for a key that an object does not hold; it is a type of its own, different from
  \<^verbatim>\<open>Null\<close>. A JSON number is a double; every finite double is a rational number.
  A \<^verbatim>\<open>QJsonObject\<close> is the list of its members in ascending key order, a \<^verbatim>\<open>QJsonArray\<close>
  the list of its elements.
\<close>

datatype json =
    JUndefined
  | JNull
  | JBool bool
  | JDouble rat
  | JString string
  | JArray "json list"
  | JObject "(string \<times> json) list"

type_synonym QJsonObject = "(string \<times> json) list"
type_synonym QJsonArray = "json list"

text \<open>\<^verbatim>\<open>QJsonValue(int)\<close>: the number with the value of the \<^verbatim>\<open>int\<close>.\<close>

definition json_of_int :: "cint \<Rightarrow> json" where
  "json_of_int n = JDouble (of_int (sint n))"

text \<open>\<^verbatim>\<open>QJsonValue::isNull()\<close> is \<^verbatim>\<open>type() == Null\<close>: false for \<^verbatim>\<open>Undefined\<close>.\<close>

definition isNull :: "json \<Rightarrow> bool" where
  "isNull v = (v = JNull)"

text \<open>\<^verbatim>\<open>toString()\<close>, \<^verbatim>\<open>toArray()\<close>, \<^verbatim>\<open>toObject()\<close>: the payload, or an empty default
  when the value has another type.\<close>

definition toString :: "json \<Rightarrow> string" where
  "toString v = (case v of JString s \<Rightarrow> s | _ \<Rightarrow> [])"

definition toArray :: "json \<Rightarrow> QJsonArray" where
  "toArray v = (case v of JArray xs \<Rightarrow> xs | _ \<Rightarrow> [])"

definition toObject :: "json \<Rightarrow> QJsonObject" where
  "toObject v = (case v of JObject kvs \<Rightarrow> kvs | _ \<Rightarrow> [])"

text \<open>\<^verbatim>\<open>toInt()\<close>: the number when it is whole and fits an \<^verbatim>\<open>int\<close>, else the default 0.\<close>

definition toInt :: "json \<Rightarrow> cint" where
  "toInt v = (case v of
       JDouble q \<Rightarrow>
         if of_int \<lfloor>q\<rfloor> = q \<and> - (2 ^ 31) \<le> \<lfloor>q\<rfloor> \<and> \<lfloor>q\<rfloor> < 2 ^ 31 then of_int \<lfloor>q\<rfloor> else 0
     | _ \<Rightarrow> 0)"

text \<open>\<^verbatim>\<open>QString::operator<\<close>: lexicographic on the code units.\<close>

fun qstring_less :: "string \<Rightarrow> string \<Rightarrow> bool" where
  "qstring_less [] [] = False"
| "qstring_less [] (y # ys) = True"
| "qstring_less (x # xs) [] = False"
| "qstring_less (x # xs) (y # ys) =
     ((of_char x :: nat) < of_char y \<or> (x = y \<and> qstring_less xs ys))"

text \<open>\<^verbatim>\<open>QPair<int,int>::operator<\<close>: first components, then second, as signed \<^verbatim>\<open>int\<close>s.\<close>

definition qpair_less :: "cint \<times> cint \<Rightarrow> cint \<times> cint \<Rightarrow> bool" where
  "qpair_less p q =
     (sint (fst p) < sint (fst q) \<or> (\<not> sint (fst q) < sint (fst p) \<and> sint (snd p) < sint (snd q)))"

subsection \<open>Sorted associative containers: \<^verbatim>\<open>QMap\<close> and \<^verbatim>\<open>QJsonObject\<close>\<close>

text \<open>
  Both keep one entry per key, in ascending key order. \<open>sorted_put\<close> replaces the value
  of a key that is there and puts a new key at its place in the order.
\<close>

fun sorted_put :: "('k \<Rightarrow> 'k \<Rightarrow> bool) \<Rightarrow> ('k \<times> 'v) list \<Rightarrow> 'k \<Rightarrow> 'v \<Rightarrow> ('k \<times> 'v) list" where
  "sorted_put lt [] k v = [(k, v)]"
| "sorted_put lt ((k', v') # m) k v =
     (if k = k' then (k, v) # m
      else if lt k k' then (k, v) # (k', v') # m
      else (k', v') # sorted_put lt m k v)"

definition QMap_contains :: "('k \<times> 'v) list \<Rightarrow> 'k \<Rightarrow> bool" where
  "QMap_contains m k = (map_of m k \<noteq> None)"

text \<open>\<^verbatim>\<open>QMap::operator[]\<close> on an \<^verbatim>\<open>int\<close>-valued map: the value of the key. The exporter calls
  it only for a key the map contains; for an absent key Qt would insert and return 0.\<close>

definition QMap_value :: "('k \<times> cint) list \<Rightarrow> 'k \<Rightarrow> cint" where
  "QMap_value m k = (case map_of m k of Some v \<Rightarrow> v | None \<Rightarrow> 0)"

definition QMap_size :: "('k \<times> 'v) list \<Rightarrow> cint" where
  "QMap_size m = of_nat (length m)"

definition QMap_insert :: "('k \<Rightarrow> 'k \<Rightarrow> bool) \<Rightarrow> ('k \<times> 'v) list \<Rightarrow> 'k \<Rightarrow> 'v \<Rightarrow> ('k \<times> 'v) list" where
  "QMap_insert lt m k v = sorted_put lt m k v"

definition QJsonObject_remove :: "QJsonObject \<Rightarrow> string \<Rightarrow> QJsonObject" where
  "QJsonObject_remove obj key = filter (\<lambda>kv. fst kv \<noteq> key) obj"

text \<open>\<^verbatim>\<open>QJsonObject::value(key)\<close>: \<^verbatim>\<open>Undefined\<close> when the key is absent.\<close>

definition QJsonObject_value :: "QJsonObject \<Rightarrow> string \<Rightarrow> json" where
  "QJsonObject_value obj key = (case map_of obj key of Some v \<Rightarrow> v | None \<Rightarrow> JUndefined)"

text \<open>\<^verbatim>\<open>QJsonObject::take(key)\<close>: the value and the object without the key.\<close>

definition QJsonObject_take :: "QJsonObject \<Rightarrow> string \<Rightarrow> json \<times> QJsonObject" where
  "QJsonObject_take obj key = (QJsonObject_value obj key, QJsonObject_remove obj key)"

text \<open>\<^verbatim>\<open>QJsonObject::insert(key, value)\<close>: replaces or adds; inserting \<^verbatim>\<open>Undefined\<close> removes
  the key.\<close>

definition QJsonObject_insert :: "QJsonObject \<Rightarrow> string \<Rightarrow> json \<Rightarrow> QJsonObject" where
  "QJsonObject_insert obj key v =
     (if v = JUndefined then QJsonObject_remove obj key else sorted_put qstring_less obj key v)"

text \<open>\<^verbatim>\<open>QJsonObject{{k1, v1}, ...}\<close>: the members inserted one after the other.\<close>

definition QJsonObject_of :: "(string \<times> json) list \<Rightarrow> QJsonObject" where
  "QJsonObject_of kvs = fold (\<lambda>kv obj. QJsonObject_insert obj (fst kv) (snd kv)) kvs []"

subsection \<open>\<^verbatim>\<open>QVector\<close>\<close>

text \<open>
  \<^verbatim>\<open>QVector::operator[]\<close> asserts \<^verbatim>\<open>0 <= i < size()\<close>; an index outside is a fault of the
  program, not a value.
\<close>

datatype fault = IndexOutOfRange

definition QVector_at :: "'a list \<Rightarrow> cint \<Rightarrow> fault + 'a" where
  "QVector_at xs i =
     (if 0 \<le> sint i \<and> sint i < int (length xs) then Inr (xs ! nat (sint i)) else Inl IndexOutOfRange)"

definition QVector_set :: "'a list \<Rightarrow> cint \<Rightarrow> 'a \<Rightarrow> fault + 'a list" where
  "QVector_set xs i v =
     (if 0 \<le> sint i \<and> sint i < int (length xs) then Inr (xs[nat (sint i) := v])
      else Inl IndexOutOfRange)"

text \<open>\<^verbatim>\<open>resize(n)\<close>: keeps the first \<open>n\<close> elements and pads with default-constructed ones.\<close>

definition QVector_resize :: "'a list \<Rightarrow> cint \<Rightarrow> 'a \<Rightarrow> 'a list" where
  "QVector_resize xs n dflt =
     take (nat (sint n)) xs @ replicate (nat (sint n) - length xs) dflt"

definition QVector_size :: "'a list \<Rightarrow> cint" where
  "QVector_size xs = of_nat (length xs)"


section \<open>The exporter\<close>

subsection \<open>What the exporter reads from its surroundings\<close>

text \<open>
  \<^verbatim>\<open>gltfexport.h\<close> is not part of the sources. It declares \<^verbatim>\<open>struct Node\<close> (its four
  \<^verbatim>\<open>int\<close> fields are named by the initialiser in \<^verbatim>\<open>buildUniqueVectors\<close>) and the default
  values of \<^verbatim>\<open>metallicFactor\<close> and \<^verbatim>\<open>roughnessFactor\<close>, which are parameters here, as are
  \<^verbatim>\<open>QColor\<close>'s reading of a colour name, the resource files with the shapes and whether a
  file can be opened for writing.
\<close>

record Node =
  mesh :: cint
  depth :: cint
  row :: cint
  col :: cint

text \<open>A \<^verbatim>\<open>QFile\<close> opened read-only on a resource path: it does not exist, it cannot be
  opened, or it is read and handed to \<^verbatim>\<open>QJsonDocument::fromJson\<close>, whose result is the
  parsed document or none when the bytes are not JSON.\<close>

datatype resource = Absent | Unopenable | Readable "json option"

record env =
  redF :: "string \<Rightarrow> rat"
  greenF :: "string \<Rightarrow> rat"
  blueF :: "string \<Rightarrow> rat"
  alphaF :: "string \<Rightarrow> rat"
  metallicFactor :: rat
  roughnessFactor :: rat
  shapeFile :: "string \<Rightarrow> resource"
  writable :: "string \<Rightarrow> bool"

text \<open>\<^verbatim>\<open>QUrl\<close>: only its local file name is used.\<close>

record QUrl =
  toLocalFile :: string

text \<open>The two signals of \<^verbatim>\<open>GLTFExport\<close>, and the files written so far (latest first).\<close>

datatype signal = Emit_error string string | Emit_exported string

type_synonym disk = "(string \<times> json) list"

subsection \<open>\<^verbatim>\<open>buildUniqueVectors\<close>\<close>

record indexer =
  uniqueShapes :: "(string \<times> cint) list"
  uniqueColors :: "(string \<times> cint) list"
  uniqueMeshes :: "((cint \<times> cint) \<times> cint) list"
  nodes :: "Node list"

text \<open>The body of the inner loop, for the element \<open>cell\<close> at \<^verbatim>\<open>row[j]\<close> of row \<open>i\<close>.\<close>

definition pixelBody :: "cint \<Rightarrow> cint \<Rightarrow> json \<Rightarrow> indexer \<Rightarrow> indexer" where
  "pixelBody i j cell st =
     (let item = toObject cell;
          (itemColor, item1) = QJsonObject_take item ''color'';
          (itemShape, item2) = QJsonObject_take item1 ''shape'';
          (itemDepth, item3) = QJsonObject_take item2 ''depth''
      in if isNull itemColor \<or> isNull itemShape \<or> isNull itemDepth then st
         else
           let color = toString itemColor;
               shape = toString itemShape;
               depth = toInt itemDepth;
               (shapeIdx, shapes') =
                 (if \<not> QMap_contains (uniqueShapes st) shape
                  then (QMap_size (uniqueShapes st),
                        QMap_insert qstring_less (uniqueShapes st) shape (QMap_size (uniqueShapes st)))
                  else (QMap_value (uniqueShapes st) shape, uniqueShapes st));
               (colorIdx, colors') =
                 (if \<not> QMap_contains (uniqueColors st) color
                  then (QMap_size (uniqueColors st),
                        QMap_insert qstring_less (uniqueColors st) color (QMap_size (uniqueColors st)))
                  else (QMap_value (uniqueColors st) color, uniqueColors st));
               mesh = (shapeIdx, colorIdx);
               (meshIdx, meshes') =
                 (if \<not> QMap_contains (uniqueMeshes st) mesh
                  then (QMap_size (uniqueMeshes st),
                        QMap_insert qpair_less (uniqueMeshes st) mesh (QMap_size (uniqueMeshes st)))
                  else (QMap_value (uniqueMeshes st) mesh, uniqueMeshes st))
           in \<lparr>uniqueShapes = shapes', uniqueColors = colors', uniqueMeshes = meshes',
               nodes = nodes st @ [\<lparr>mesh = meshIdx, depth = depth, row = i, col = j\<rparr>]\<rparr>)"

text \<open>The inner loop over the rest of a row, from column \<open>j\<close>, and the outer loop over the
  rest of the rows, from row \<open>i\<close>: the counters run through the indices of the array, so
  the recursion follows the list of the elements still to come.\<close>

fun rowLoop :: "json list \<Rightarrow> cint \<Rightarrow> cint \<Rightarrow> indexer \<Rightarrow> indexer" where
  "rowLoop [] i j st = st"
| "rowLoop (cell # cells) i j st = rowLoop cells i (j + 1) (pixelBody i j cell st)"

fun pixelLoop :: "json list \<Rightarrow> cint \<Rightarrow> indexer \<Rightarrow> indexer" where
  "pixelLoop [] i st = st"
| "pixelLoop (r # rs) i st = pixelLoop rs (i + 1) (rowLoop (toArray r) i 0 st)"

text \<open>The loops that turn a map into a vector: \<^verbatim>\<open>vec[it.value()] = it.key()\<close> for every
  entry, in the map's order.\<close>

fun fillVector :: "('k \<times> cint) list \<Rightarrow> 'k list \<Rightarrow> fault + 'k list" where
  "fillVector [] vec = Inr vec"
| "fillVector ((k, v) # m) vec =
     (case QVector_set vec v k of Inl e \<Rightarrow> Inl e | Inr vec' \<Rightarrow> fillVector m vec')"

definition buildUniqueVectors ::
  "QJsonArray \<Rightarrow> string list \<Rightarrow> string list \<Rightarrow> (cint \<times> cint) list \<Rightarrow> Node list
     \<Rightarrow> fault + (string list \<times> string list \<times> (cint \<times> cint) list \<times> Node list)" where
  "buildUniqueVectors pixelMap shapes colors meshes nodes0 =
     (let st = pixelLoop pixelMap 0
                 \<lparr>uniqueShapes = [], uniqueColors = [], uniqueMeshes = [], nodes = nodes0\<rparr>
      in case fillVector (uniqueShapes st)
                (QVector_resize shapes (QMap_size (uniqueShapes st)) []) of
           Inl e \<Rightarrow> Inl e
         | Inr shapes' \<Rightarrow>
           (case fillVector (uniqueColors st)
                   (QVector_resize colors (QMap_size (uniqueColors st)) []) of
              Inl e \<Rightarrow> Inl e
            | Inr colors' \<Rightarrow>
              (case fillVector (uniqueMeshes st)
                      (QVector_resize meshes (QMap_size (uniqueMeshes st)) (0, 0)) of
                 Inl e \<Rightarrow> Inl e
               | Inr meshes' \<Rightarrow> Inr (shapes', colors', meshes', nodes st))))"

subsection \<open>Assembling the document\<close>

definition materialsFromColors :: "env \<Rightarrow> string list \<Rightarrow> rat \<Rightarrow> rat \<Rightarrow> QJsonArray" where
  "materialsFromColors e colors metallic roughness =
     map (\<lambda>c. JObject (QJsonObject_of
           [(''pbrMetallicRoughness'', JObject (QJsonObject_of
              [(''baseColorFactor'',
                  JArray [JDouble (redF e c), JDouble (greenF e c), JDouble (blueF e c),
                          JDouble (alphaF e c)]),
               (''metallicFactor'', JDouble metallic),
               (''roughnessFactor'', JDouble roughness)]))]))
       colors"

definition insertInfo :: "QJsonObject \<Rightarrow> QJsonObject" where
  "insertInfo exportModel =
     QJsonObject_insert exportModel ''asset''
       (JObject (QJsonObject_of
          [(''generator'', JString ''Pixel Model Maker''), (''version'', JString ''2.0'')]))"

definition insertScene :: "QJsonObject \<Rightarrow> cint \<Rightarrow> QJsonObject" where
  "insertScene exportModel numNodes =
     QJsonObject_insert (QJsonObject_insert exportModel ''scene'' (json_of_int 0)) ''scenes''
       (JArray [JObject (QJsonObject_of [(''nodes'', JArray [json_of_int numNodes])])])"

text \<open>The literal \<^verbatim>\<open>0.7071068286895752\<close> of the root node's rotation.\<close>

definition rotation_component :: rat where
  "rotation_component = 7071068286895752 / 10000000000000000"

definition insertNodes :: "QJsonObject \<Rightarrow> Node list \<Rightarrow> cint \<Rightarrow> QJsonObject" where
  "insertNodes exportModel nodes0 height =
     (let nodesDef =
            map (\<lambda>n. JObject (QJsonObject_of
                  [(''mesh'', json_of_int (mesh n)),
                   (''translation'',
                      JArray [json_of_int (row n * 2 + 1), json_of_int (col n * 2 + 1),
                              json_of_int 0]),
                   (''scale'',
                      JArray [json_of_int 1, json_of_int 1, json_of_int (2 * depth n - 1)])]))
              nodes0;
          scenesNodes = map (\<lambda>i. json_of_int (of_nat i)) [0..<length nodes0];
          root = JObject (QJsonObject_of
                  [(''children'', JArray scenesNodes),
                   (''translation'',
                      JArray [json_of_int 0, json_of_int (2 * height), json_of_int 0]),
                   (''rotation'',
                      JArray [json_of_int 0, json_of_int 0, JDouble (- rotation_component),
                              JDouble rotation_component])])
      in QJsonObject_insert exportModel ''nodes'' (JArray (nodesDef @ [root])))"

definition insertMeshes :: "QJsonObject \<Rightarrow> (cint \<times> cint) list \<Rightarrow> QJsonObject" where
  "insertMeshes exportModel meshes =
     (let meshesDef =
            map (\<lambda>m. JObject (QJsonObject_of
                  [(''primitives'',
                      JArray [JObject (QJsonObject_of
                        [(''attributes'', JObject (QJsonObject_of
                            [(''POSITION'', json_of_int (fst m * 3)),
                             (''NORMAL'', json_of_int (fst m * 3 + 1))])),
                         (''indices'', json_of_int (fst m * 3 + 2)),
                         (''material'', json_of_int (snd m))])])]))
              meshes
      in QJsonObject_insert exportModel ''meshes'' (JArray meshesDef))"

definition insertMaterials :: "env \<Rightarrow> QJsonObject \<Rightarrow> string list \<Rightarrow> QJsonObject" where
  "insertMaterials e exportModel colors =
     QJsonObject_insert exportModel ''materials''
       (JArray (materialsFromColors e colors (metallicFactor e) (roughnessFactor e)))"

text \<open>\<^verbatim>\<open>QJsonDocument::fromJson(bytes).object()\<close>: the empty object unless the bytes parse
  to an object.\<close>

definition document_object :: "json option \<Rightarrow> QJsonObject" where
  "document_object parsed = (case parsed of Some (JObject kvs) \<Rightarrow> kvs | _ \<Rightarrow> [])"

definition insertShapeData :: "env \<Rightarrow> QJsonObject \<Rightarrow> string list \<Rightarrow> fault + (bool \<times> QJsonObject)" where
  "insertShapeData e exportModel shapes =
     (case QVector_at shapes 0 of
        Inl f \<Rightarrow> Inl f
      | Inr shape0 \<Rightarrow>
        (case shapeFile e ('':/ui/exports/'' @ shape0 @ ''.gltf'') of
           Absent \<Rightarrow> Inr (False, exportModel)
         | Unopenable \<Rightarrow> Inr (False, exportModel)
         | Readable parsed \<Rightarrow>
             (let shapeDef = document_object parsed;
                  (buffers, shapeDef1) = QJsonObject_take shapeDef ''buffers'';
                  exportModel1 = QJsonObject_insert exportModel ''buffers'' buffers;
                  (bufferViews, shapeDef2) = QJsonObject_take shapeDef1 ''bufferViews'';
                  exportModel2 = QJsonObject_insert exportModel1 ''bufferViews'' bufferViews;
                  (accessors, shapeDef3) = QJsonObject_take shapeDef2 ''accessors'';
                  exportModel3 = QJsonObject_insert exportModel2 ''accessors'' accessors
              in Inr (True, exportModel3))))"

text \<open>\<^verbatim>\<open>writeModel\<close>: the document is the content of the file when the file opens for
  writing (the bytes of \<^verbatim>\<open>toJson\<close> are not modelled).\<close>

definition writeModel :: "env \<Rightarrow> disk \<Rightarrow> QJsonObject \<Rightarrow> string \<Rightarrow> bool \<times> disk" where
  "writeModel e d exportModel fileName =
     (if writable e fileName then (True, (fileName, JObject exportModel) # d) else (False, d))"

subsection \<open>\<^verbatim>\<open>GLTFExport::write\<close>\<close>

definition write' :: "env \<Rightarrow> disk \<Rightarrow> QUrl \<Rightarrow> QJsonObject \<Rightarrow> fault + (signal \<times> disk)" where
  "write' e d fileName data =
     (let (versionValue, data1) = QJsonObject_take data ''version'';
          version = toString versionValue;
          localFileName = toLocalFile fileName
      in if version \<noteq> ''1.0''
         then Inr (Emit_error localFileName (''Invalid version number [1.0 != '' @ version @ '']''), d)
         else
           let (widthValue, data2) = QJsonObject_take data1 ''width'';
               width = toInt widthValue;
               (heightValue, data3) = QJsonObject_take data2 ''height'';
               height = toInt heightValue
           in if width \<noteq> height then Inr (Emit_error localFileName ''invalid size'', d)
              else
                let (pixelsValue, data4) = QJsonObject_take data3 ''pixels'';
                    pixelMap = toArray pixelsValue
                in case buildUniqueVectors pixelMap [] [] [] [] of
                     Inl f \<Rightarrow> Inl f
                   | Inr (shapes, colors, meshes, nodes0) \<Rightarrow>
                       let exportModel = [];
                           exportModel = insertInfo exportModel;
                           exportModel = insertScene exportModel (QVector_size nodes0);
                           exportModel = insertNodes exportModel nodes0 height;
                           exportModel = insertMeshes exportModel meshes;
                           exportModel = insertMaterials e exportModel colors
                       in case insertShapeData e exportModel shapes of
                            Inl f \<Rightarrow> Inl f
                          | Inr (found, exportModel') \<Rightarrow>
                              if \<not> found
                              then Inr (Emit_error localFileName ''Can't find or open shape files'', d)
                              else
                                (case writeModel e d exportModel' localFileName of
                                   (written, d') \<Rightarrow>
                                     if \<not> written
                                     then Inr (Emit_error localFileName ''Can't write to file!'', d')
                                     else Inr (Emit_exported localFileName, d')))"

section \<open>Vocabulary of the properties\<close>

subsection \<open>The cells of the grid\<close>

text \<open>What \<^verbatim>\<open>item.take("color")\<close>, \<^verbatim>\<open>item.take("shape")\<close> and \<^verbatim>\<open>item.take("depth")\<close> return
  for the element \<open>cell\<close> of a row.\<close>

definition cell_color :: "json \<Rightarrow> json" where
  "cell_color cell = QJsonObject_value (toObject cell) ''color''"

definition cell_shape :: "json \<Rightarrow> json" where
  "cell_shape cell = QJsonObject_value (toObject cell) ''shape''"

definition cell_depth :: "json \<Rightarrow> json" where
  "cell_depth cell = QJsonObject_value (toObject cell) ''depth''"

text \<open>The cells the loop does not skip: none of the three values is \<^verbatim>\<open>Null\<close>.\<close>

definition retains :: "json \<Rightarrow> bool" where
  "retains cell \<longleftrightarrow>
     \<not> isNull (cell_color cell) \<and> \<not> isNull (cell_shape cell) \<and> \<not> isNull (cell_depth cell)"

text \<open>In the words of the specification: a cell in which the shape, color and depth
  attributes are all present.\<close>

definition has_all_attributes :: "json \<Rightarrow> bool" where
  "has_all_attributes cell \<longleftrightarrow>
     map_of (toObject cell) ''shape'' \<noteq> None \<and> map_of (toObject cell) ''color'' \<noteq> None \<and>
     map_of (toObject cell) ''depth'' \<noteq> None"

text \<open>A cell with its position: (row, column, element). \<open>grid_cells\<close> lists the cells of
  the grid row by row, \<open>retained\<close> those that are not skipped.\<close>

type_synonym pcell = "nat \<times> nat \<times> json"

definition grid_cells :: "QJsonArray \<Rightarrow> pcell list" where
  "grid_cells pixelMap =
     concat (map (\<lambda>(i, r). map (\<lambda>(j, c). (i, j, c)) (enumerate 0 (toArray r)))
               (enumerate 0 pixelMap))"

definition retained :: "QJsonArray \<Rightarrow> pcell list" where
  "retained pixelMap = filter (\<lambda>(i, j, c). retains c) (grid_cells pixelMap)"

definition shape_name :: "pcell \<Rightarrow> string" where
  "shape_name x = toString (cell_shape (snd (snd x)))"

definition color_name :: "pcell \<Rightarrow> string" where
  "color_name x = toString (cell_color (snd (snd x)))"

definition depth_of :: "pcell \<Rightarrow> cint" where
  "depth_of x = toInt (cell_depth (snd (snd x)))"

subsection \<open>Keys in the order of their first occurrence\<close>

definition seen_add :: "'a list \<Rightarrow> 'a \<Rightarrow> 'a list" where
  "seen_add S k = (if k \<in> set S then S else S @ [k])"

definition first_seen :: "'a list \<Rightarrow> 'a list" where
  "first_seen xs = foldl seen_add [] xs"

fun index_of :: "'a list \<Rightarrow> 'a \<Rightarrow> nat" where
  "index_of [] k = 0"
| "index_of (x # xs) k = (if x = k then 0 else Suc (index_of xs k))"

text \<open>The three key streams of a list of cells: the shape names, the colour strings, and
  the pairs (index of the shape, index of the colour); and the node of a cell.\<close>

definition shapes_of :: "pcell list \<Rightarrow> string list" where
  "shapes_of cs = first_seen (map shape_name cs)"

definition colors_of :: "pcell list \<Rightarrow> string list" where
  "colors_of cs = first_seen (map color_name cs)"

definition mesh_key :: "pcell list \<Rightarrow> pcell \<Rightarrow> cint \<times> cint" where
  "mesh_key cs x =
     (of_nat (index_of (shapes_of cs) (shape_name x)),
      of_nat (index_of (colors_of cs) (color_name x)))"

definition meshes_of :: "pcell list \<Rightarrow> (cint \<times> cint) list" where
  "meshes_of cs = first_seen (map (mesh_key cs) cs)"

definition node_of :: "pcell list \<Rightarrow> pcell \<Rightarrow> Node" where
  "node_of cs x =
     \<lparr>mesh = of_nat (index_of (meshes_of cs) (mesh_key cs x)), depth = depth_of x,
      row = of_nat (fst x), col = of_nat (fst (snd x))\<rparr>"

text \<open>In the words of the specification: the map \<open>m\<close> assigns dense zero-based indices to
  the keys of \<open>stream\<close> in the order of their first insertion, one index per key, and the
  vector \<open>vec\<close> holds the key with index \<open>i\<close> at position \<open>i\<close>.\<close>

definition indexes :: "('k \<times> cint) list \<Rightarrow> 'k list \<Rightarrow> 'k list \<Rightarrow> bool" where
  "indexes m stream vec \<longleftrightarrow>
     distinct (map fst m) \<and>
     (\<lambda>kv. sint (snd kv)) ` set m = {0..<int (length m)} \<and>
     vec = first_seen stream \<and> length vec = length m \<and>
     (\<forall>i<length vec. map_of m (vec ! i) = Some (of_nat i)) \<and>
     (\<forall>k \<in> set stream. map_of m k = Some (of_nat (index_of vec k)))"

subsection \<open>Reading the input and the document\<close>

definition input_version :: "QJsonObject \<Rightarrow> string" where
  "input_version data = toString (QJsonObject_value data ''version'')"

definition input_width :: "QJsonObject \<Rightarrow> cint" where
  "input_width data = toInt (QJsonObject_value data ''width'')"

definition input_height :: "QJsonObject \<Rightarrow> cint" where
  "input_height data = toInt (QJsonObject_value data ''height'')"

definition input_pixels :: "QJsonObject \<Rightarrow> QJsonArray" where
  "input_pixels data = toArray (QJsonObject_value data ''pixels'')"

definition shape_path :: "string \<Rightarrow> string" where
  "shape_path shape = '':/ui/exports/'' @ shape @ ''.gltf''"

text \<open>A member of a JSON object and an element of a JSON array, \<^verbatim>\<open>Undefined\<close> when there
  is none.\<close>

definition jfield :: "json \<Rightarrow> string \<Rightarrow> json" where
  "jfield v key = QJsonObject_value (toObject v) key"

definition jitem :: "json \<Rightarrow> nat \<Rightarrow> json" where
  "jitem v i = (if i < length (toArray v) then toArray v ! i else JUndefined)"

definition jlength :: "json \<Rightarrow> nat" where
  "jlength v = length (toArray v)"

text \<open>The document \<^verbatim>\<open>write\<close> has built when it calls \<^verbatim>\<open>insertShapeData\<close>.\<close>

definition assemble ::
  "env \<Rightarrow> string list \<Rightarrow> (cint \<times> cint) list \<Rightarrow> Node list \<Rightarrow> cint \<Rightarrow> QJsonObject" where
  "assemble e colors meshes nodes0 height =
     insertMaterials e
       (insertMeshes
          (insertNodes (insertScene (insertInfo []) (QVector_size nodes0)) nodes0 height) meshes)
       colors"

text \<open>The document a successful export has written, and the state of the maps after the
  loops of \<^verbatim>\<open>buildUniqueVectors\<close>.\<close>

definition exported_doc :: "fault + signal \<times> disk \<Rightarrow> json" where
  "exported_doc r = (case r of Inr (Emit_exported f, (f', doc) # d) \<Rightarrow> doc | _ \<Rightarrow> JUndefined)"

definition indexing :: "QJsonArray \<Rightarrow> indexer" where
  "indexing pixelMap =
     pixelLoop pixelMap 0 \<lparr>uniqueShapes = [], uniqueColors = [], uniqueMeshes = [], nodes = []\<rparr>"

text \<open>In the words of the specification: the cells in which all three attributes are
  present.\<close>

definition well_formed_cells :: "QJsonArray \<Rightarrow> pcell list" where
  "well_formed_cells pixelMap = filter (\<lambda>(i, j, c). has_all_attributes c) (grid_cells pixelMap)"

subsection \<open>The invariant of the indexing loop\<close>

text \<open>A map is the dictionary of the key list \<open>S\<close> when it holds exactly the keys of
  \<open>S\<close>, each with its position in \<open>S\<close>.\<close>

definition dict_of :: "'k list \<Rightarrow> ('k \<times> cint) list \<Rightarrow> bool" where
  "dict_of S m \<longleftrightarrow>
     distinct S \<and> distinct (map fst m) \<and> length m = length S \<and>
     map_of m = (\<lambda>k. if k \<in> set S then Some (of_nat (index_of S k)) else None)"

text \<open>The look-up-or-insert that the loop body spells out three times.\<close>

definition index_key ::
  "('k \<Rightarrow> 'k \<Rightarrow> bool) \<Rightarrow> ('k \<times> cint) list \<Rightarrow> 'k \<Rightarrow> cint \<times> ('k \<times> cint) list" where
  "index_key lt m k =
     (if \<not> QMap_contains m k then (QMap_size m, QMap_insert lt m k (QMap_size m))
      else (QMap_value m k, m))"

definition cell_step :: "indexer \<Rightarrow> pcell \<Rightarrow> indexer" where
  "cell_step st x = pixelBody (of_nat (fst x)) (of_nat (fst (snd x))) (snd (snd x)) st"

definition indexed_by :: "pcell list \<Rightarrow> Node list \<Rightarrow> indexer \<Rightarrow> bool" where
  "indexed_by cs nodes0 st \<longleftrightarrow>
     dict_of (shapes_of cs) (uniqueShapes st) \<and>
     dict_of (colors_of cs) (uniqueColors st) \<and>
     dict_of (meshes_of cs) (uniqueMeshes st) \<and>
     nodes st = nodes0 @ map (node_of cs) cs"

subsection \<open>Concrete inputs\<close>

text \<open>A cell with all three attributes, a cell whose attributes are \<^verbatim>\<open>null\<close>, an input
  document, a shape bundle, and surroundings in which only the bundle of the shape
  \<^verbatim>\<open>cube\<close> may exist and every file can be written.\<close>

definition pixel :: "string \<Rightarrow> string \<Rightarrow> rat \<Rightarrow> json" where
  "pixel shape color d =
     JObject [(''color'', JString color), (''depth'', JDouble d), (''shape'', JString shape)]"

definition empty_pixel :: json where
  "empty_pixel = JObject [(''color'', JNull), (''depth'', JNull), (''shape'', JNull)]"

definition pixel_without_depth :: json where
  "pixel_without_depth = JObject [(''color'', JString ''red''), (''shape'', JString ''cube'')]"

definition example_input :: "string \<Rightarrow> rat \<Rightarrow> rat \<Rightarrow> json list \<Rightarrow> QJsonObject" where
  "example_input version width height pixels =
     [(''height'', JDouble height), (''pixels'', JArray pixels), (''version'', JString version),
      (''width'', JDouble width)]"

definition cube_bundle :: json where
  "cube_bundle =
     JObject [(''accessors'', JArray [JString ''a'']), (''bufferViews'', JArray [JString ''v'']),
              (''buffers'', JArray [JString ''b''])]"

definition example_env :: "resource \<Rightarrow> env" where
  "example_env cube =
     \<lparr>redF = (\<lambda>_. 1), greenF = (\<lambda>_. 0), blueF = (\<lambda>_. 0), alphaF = (\<lambda>_. 1),
      metallicFactor = 0, roughnessFactor = 1,
      shapeFile = (\<lambda>p. if p = '':/ui/exports/cube.gltf'' then cube else Absent),
      writable = (\<lambda>_. True)\<rparr>"

definition example_url :: QUrl where
  "example_url = \<lparr>toLocalFile = ''out.gltf''\<rparr>"

definition cube_env :: env where
  "cube_env = example_env (Readable (Some cube_bundle))"

section \<open>Lemmas\<close>

subsection \<open>Sorted association lists, JSON objects and arrays\<close>

text \<open>The facts about \<open>sorted_put\<close> hold for every comparison \<open>lt\<close>: where a new key
  lands in the list plays no part in what follows.\<close>

lemma map_of_sorted_put: "map_of (sorted_put lt m k v) = (map_of m)(k \<mapsto> v)"
  by (induction m) (auto simp: fun_upd_twist)

lemma keys_sorted_put: "fst ` set (sorted_put lt m k v) = insert k (fst ` set m)"
proof (induction m)
  case Nil
  then show ?case by simp
next
  case (Cons a m)
  obtain k' v' where a: "a = (k', v')" by (cases a)
  show ?case unfolding a using Cons.IH by (simp add: insert_commute)
qed

lemma length_sorted_put_new: "k \<notin> fst ` set m \<Longrightarrow> length (sorted_put lt m k v) = Suc (length m)"
  by (induction m) auto

lemma set_sorted_put_new: "k \<notin> fst ` set m \<Longrightarrow> set (sorted_put lt m k v) = insert (k, v) (set m)"
proof (induction m)
  case Nil
  then show ?case by simp
next
  case (Cons a m)
  obtain k' v' where a: "a = (k', v')" by (cases a)
  from Cons.prems have "k \<noteq> k'" "k \<notin> fst ` set m" by (auto simp: a)
  then show ?case unfolding a using Cons.IH by (simp add: insert_commute)
qed

lemma distinct_sorted_put:
  "k \<notin> fst ` set m \<Longrightarrow> distinct (map fst m) \<Longrightarrow> distinct (map fst (sorted_put lt m k v))"
proof (induction m)
  case Nil
  then show ?case by simp
next
  case (Cons a m)
  obtain k' v' where a: "a = (k', v')" by (cases a)
  from Cons.prems have d: "distinct (map fst m)" and n: "k' \<notin> fst ` set m"
    and kk: "k \<noteq> k'" and km: "k \<notin> fst ` set m" by (auto simp: a)
  have "k' \<notin> fst ` set (sorted_put lt m k v)"
    using n kk by (simp add: keys_sorted_put)
  then show ?case unfolding a using Cons.IH [OF km d] d n kk km by simp
qed

lemma value_remove_other:
  "key' \<noteq> key \<Longrightarrow> QJsonObject_value (QJsonObject_remove obj key) key' = QJsonObject_value obj key'"
proof -
  assume "key' \<noteq> key"
  then have "map_of (filter (\<lambda>kv. fst kv \<noteq> key) obj) key' = map_of obj key'"
    by (induction obj) auto
  then show ?thesis by (simp add: QJsonObject_value_def QJsonObject_remove_def)
qed

lemma value_remove_same: "QJsonObject_value (QJsonObject_remove obj key) key = JUndefined"
proof -
  have "map_of (filter (\<lambda>kv. fst kv \<noteq> key) obj) key = None"
    by (induction obj) auto
  then show ?thesis by (simp add: QJsonObject_value_def QJsonObject_remove_def)
qed

lemma value_insert:
  "QJsonObject_value (QJsonObject_insert obj k v) k' = (if k' = k then v else QJsonObject_value obj k')"
proof (cases "v = JUndefined")
  case True
  then show ?thesis by (simp add: QJsonObject_insert_def value_remove_same value_remove_other)
next
  case False
  then show ?thesis by (simp add: QJsonObject_insert_def QJsonObject_value_def map_of_sorted_put)
qed

lemma value_empty: "QJsonObject_value [] key = JUndefined"
  by (simp add: QJsonObject_value_def)

lemma QJsonObject_of_single: "v \<noteq> JUndefined \<Longrightarrow> QJsonObject_of [(k, v)] = [(k, v)]"
  by (simp add: QJsonObject_of_def QJsonObject_insert_def)

lemma jfield_JObject: "jfield (JObject obj) key = QJsonObject_value obj key"
  by (simp add: jfield_def toObject_def)

lemma jitem_JArray: "i < length xs \<Longrightarrow> jitem (JArray xs) i = xs ! i"
  by (simp add: jitem_def toArray_def)

lemma jlength_JArray: "jlength (JArray xs) = length xs"
  by (simp add: jlength_def toArray_def)

lemma QVector_at_0: "QVector_at xs 0 = (case xs of [] \<Rightarrow> Inl IndexOutOfRange | x # _ \<Rightarrow> Inr x)"
  by (cases xs) (simp_all add: QVector_at_def)

subsection \<open>Arithmetic of \<^verbatim>\<open>int\<close>\<close>

text \<open>Where a result fits 32 bits, the word operations are the operations on the integers.\<close>

lemma sint_of_nat_small: "n < 2 ^ 31 \<Longrightarrow> sint (of_nat n :: cint) = int n"
proof -
  assume n: "n < 2 ^ 31"
  have "sint (of_int (int n) :: cint) = signed_take_bit 31 (int n)"
    by (simp only: sint_sbintrunc') simp
  also have "\<dots> = int n"
    using n by (intro signed_take_bit_int_eq_self) (simp_all, linarith?)
  finally show ?thesis by (simp only: of_int_of_nat_eq)
qed

lemma sint_of_int_small: "- (2 ^ 31) \<le> k \<Longrightarrow> k < 2 ^ 31 \<Longrightarrow> sint (of_int k :: cint) = k"
  by (simp add: sint_sbintrunc' signed_take_bit_int_eq_self)

lemma json_of_int_of_nat: "n < 2 ^ 31 \<Longrightarrow> json_of_int (of_nat n) = JDouble (of_nat n)"
  by (simp add: json_of_int_def sint_of_nat_small)

lemma json_of_int_numeral [simp]: "json_of_int 0 = JDouble 0" "json_of_int 1 = JDouble 1"
  by (simp_all add: json_of_int_def)

lemma sint_twice_minus_one:
  "- (2 ^ 30) < sint (x :: cint) \<Longrightarrow> sint x \<le> 2 ^ 30 \<Longrightarrow> sint (2 * x - 1) = 2 * sint x - 1"
proof -
  assume a: "- (2 ^ 30) < sint x" "sint x \<le> 2 ^ 30"
  have "2 * x - 1 = (of_int (2 * sint x - 1) :: cint)" by simp
  then have "sint (2 * x - 1) = sint (of_int (2 * sint x - 1) :: cint)" by simp
  also have "\<dots> = 2 * sint x - 1"
    using a by (intro sint_of_int_small) simp_all
  finally show ?thesis .
qed

lemma sint_twice:
  "- (2 ^ 30) \<le> sint (x :: cint) \<Longrightarrow> sint x < 2 ^ 30 \<Longrightarrow> sint (2 * x) = 2 * sint x"
proof -
  assume a: "- (2 ^ 30) \<le> sint x" "sint x < 2 ^ 30"
  have "2 * x = (of_int (2 * sint x) :: cint)" by simp
  then have "sint (2 * x) = sint (of_int (2 * sint x) :: cint)" by simp
  also have "\<dots> = 2 * sint x"
    using a by (intro sint_of_int_small) simp_all
  finally show ?thesis .
qed

lemma sint_twice_plus_one:
  "n < 2 ^ 30 \<Longrightarrow> sint (of_nat n * 2 + 1 :: cint) = 2 * int n + 1"
proof -
  assume a: "n < 2 ^ 30"
  have "(of_nat n * 2 + 1 :: cint) = of_nat (2 * n + 1)" by simp
  then have "sint (of_nat n * 2 + 1 :: cint) = sint (of_nat (2 * n + 1) :: cint)" by (simp only:)
  also have "\<dots> = int (2 * n + 1)"
    using a by (intro sint_of_nat_small) simp
  finally show ?thesis by simp
qed

lemma sint_times_three:
  "0 \<le> sint (x :: cint) \<Longrightarrow> sint x < 2 ^ 29 \<Longrightarrow>
   sint (x * 3) = 3 * sint x \<and> sint (x * 3 + 1) = 3 * sint x + 1 \<and> sint (x * 3 + 2) = 3 * sint x + 2"
proof -
  assume a: "0 \<le> sint x" "sint x < 2 ^ 29"
  have e0: "x * 3 = (of_int (3 * sint x) :: cint)" by simp
  have e1: "x * 3 + 1 = (of_int (3 * sint x + 1) :: cint)" by simp
  have e2: "x * 3 + 2 = (of_int (3 * sint x + 2) :: cint)" by simp
  have "sint (x * 3) = sint (of_int (3 * sint x) :: cint)" using e0 by (rule arg_cong)
  also have "\<dots> = 3 * sint x" using a by (intro sint_of_int_small) simp_all
  finally have r0: "sint (x * 3) = 3 * sint x" .
  have "sint (x * 3 + 1) = sint (of_int (3 * sint x + 1) :: cint)" using e1 by (rule arg_cong)
  also have "\<dots> = 3 * sint x + 1" using a by (intro sint_of_int_small) simp_all
  finally have r1: "sint (x * 3 + 1) = 3 * sint x + 1" .
  have "sint (x * 3 + 2) = sint (of_int (3 * sint x + 2) :: cint)" using e2 by (rule arg_cong)
  also have "\<dots> = 3 * sint x + 2" using a by (intro sint_of_int_small) simp_all
  finally have r2: "sint (x * 3 + 2) = 3 * sint x + 2" .
  from r0 r1 r2 show ?thesis by blast
qed

lemma toInt_whole: "- (2 ^ 31) \<le> n \<Longrightarrow> n < 2 ^ 31 \<Longrightarrow> toInt (JDouble (of_int n)) = of_int n"
  by (simp add: toInt_def)

lemma children_numbers:
  "n < 2 ^ 31 \<Longrightarrow>
   map (\<lambda>i. json_of_int (of_nat i)) [0..<n] = map (\<lambda>i. JDouble (of_nat i)) [0..<n]"
  by (rule map_cong) (simp_all add: json_of_int_of_nat)

subsection \<open>Keys in the order of their first occurrence\<close>

lemma index_of_less: "k \<in> set S \<Longrightarrow> index_of S k < length S"
  by (induction S) auto

lemma nth_index_of: "k \<in> set S \<Longrightarrow> S ! index_of S k = k"
  by (induction S) auto

lemma index_of_nth: "distinct S \<Longrightarrow> i < length S \<Longrightarrow> index_of S (S ! i) = i"
proof (induction S arbitrary: i)
  case Nil
  then show ?case by simp
next
  case (Cons a S)
  then show ?case by (cases i) auto
qed

lemma index_of_append: "k \<in> set S \<Longrightarrow> index_of (S @ T) k = index_of S k"
  by (induction S) auto

lemma index_of_snoc_new: "k \<notin> set S \<Longrightarrow> index_of (S @ [k]) k = length S"
  by (induction S) auto

lemma index_of_seen_add: "k \<in> set S \<Longrightarrow> index_of (seen_add S x) k = index_of S k"
  by (simp add: seen_add_def index_of_append)

lemma set_seen_add: "set (seen_add S k) = insert k (set S)"
  by (auto simp: seen_add_def)

lemma distinct_seen_add: "distinct S \<Longrightarrow> distinct (seen_add S k)"
  by (simp add: seen_add_def)

lemma first_seen_snoc: "first_seen (xs @ [x]) = seen_add (first_seen xs) x"
  by (simp add: first_seen_def)

lemma set_first_seen: "set (first_seen xs) = set xs"
  by (induction xs rule: rev_induct) (simp_all add: first_seen_snoc set_seen_add, simp add: first_seen_def)

lemma distinct_first_seen: "distinct (first_seen xs)"
  by (induction xs rule: rev_induct) (simp_all add: first_seen_snoc distinct_seen_add, simp add: first_seen_def)

lemma length_first_seen: "length (first_seen xs) \<le> length xs"
proof (induction xs rule: rev_induct)
  case Nil
  then show ?case by (simp add: first_seen_def)
next
  case (snoc x xs)
  then show ?case by (simp add: first_seen_snoc seen_add_def)
qed

lemma foldl_seen_add_prefix: "\<exists>ys. foldl seen_add S xs = S @ ys"
proof (induction xs arbitrary: S)
  case Nil
  then show ?case by simp
next
  case (Cons x xs)
  from Cons.IH [of "seen_add S x"] obtain ys where
    ys: "foldl seen_add (seen_add S x) xs = seen_add S x @ ys"
    by blast
  have "seen_add S x = S \<or> seen_add S x = S @ [x]" by (simp add: seen_add_def)
  then show ?case using ys by auto
qed

lemma first_seen_Cons: "\<exists>ys. first_seen (x # xs) = x # ys"
  using foldl_seen_add_prefix [of "[x]" xs] by (simp add: first_seen_def seen_add_def)

lemma first_seen_Nil: "first_seen [] = []"
  by (simp add: first_seen_def)

subsection \<open>The dictionary of a key list\<close>

text \<open>One look-up-or-insert step takes the dictionary of \<open>S\<close> to the dictionary of \<open>S\<close> with
  the key added, and returns the position of the key.\<close>

lemma dict_of_empty: "dict_of [] []"
  by (simp add: dict_of_def)

lemma dict_of_keys: "dict_of S m \<Longrightarrow> fst ` set m = set S"
proof -
  assume d: "dict_of S m"
  have "fst ` set m = dom (map_of m)" by (simp add: dom_map_of_conv_image_fst)
  also have "\<dots> = set S" using d by (auto simp: dict_of_def dom_def)
  finally show ?thesis .
qed

lemma dict_of_step:
  assumes "dict_of S m"
  shows "dict_of (seen_add S k) (snd (index_key lt m k))"
    and "fst (index_key lt m k) = of_nat (index_of (seen_add S k) k)"
proof -
  have keys: "fst ` set m = set S" using assms by (rule dict_of_keys)
  have mo: "map_of m = (\<lambda>k. if k \<in> set S then Some (of_nat (index_of S k)) else None)"
    and len: "length m = length S" and dS: "distinct S" and dm: "distinct (map fst m)"
    using assms by (simp_all add: dict_of_def)
  show "dict_of (seen_add S k) (snd (index_key lt m k))"
  proof (cases "k \<in> set S")
    case True
    then show ?thesis using assms mo by (simp add: index_key_def QMap_contains_def seen_add_def)
  next
    case False
    then have nk: "k \<notin> fst ` set m" using keys by simp
    have "map_of (sorted_put lt m k (of_nat (length S))) =
            (\<lambda>k'. if k' \<in> set (S @ [k]) then Some (of_nat (index_of (S @ [k]) k')) else None)"
      using False by (auto simp: map_of_sorted_put mo fun_eq_iff index_of_snoc_new index_of_append)
    then show ?thesis
      using False mo len dS dm nk
      by (simp add: index_key_def QMap_contains_def QMap_insert_def QMap_size_def seen_add_def
          dict_of_def length_sorted_put_new distinct_sorted_put)
  qed
  show "fst (index_key lt m k) = of_nat (index_of (seen_add S k) k)"
  proof (cases "k \<in> set S")
    case True
    then show ?thesis using mo
      by (simp add: index_key_def QMap_contains_def QMap_value_def seen_add_def)
  next
    case False
    then show ?thesis using mo len
      by (simp add: index_key_def QMap_contains_def QMap_size_def seen_add_def index_of_snoc_new)
  qed
qed

lemma dict_of_entry:
  assumes "dict_of S m"
  shows "(k, v) \<in> set m \<longleftrightarrow> k \<in> set S \<and> v = of_nat (index_of S k)"
proof -
  have dm: "distinct (map fst m)"
    and mo: "map_of m = (\<lambda>k. if k \<in> set S then Some (of_nat (index_of S k)) else None)"
    using assms by (simp_all add: dict_of_def)
  have "(k, v) \<in> set m \<longleftrightarrow> map_of m k = Some v"
    using dm by simp
  then show ?thesis by (auto simp: mo)
qed

lemma dict_of_indexes:
  fixes stream :: "'k list"
  assumes d: "dict_of (first_seen stream) m" and n: "length (first_seen stream) < 2 ^ 31"
  shows "indexes m stream (first_seen stream)"
proof -
  let ?S = "first_seen stream"
  have dS: "distinct ?S" and dm: "distinct (map fst m)" and len: "length m = length ?S"
    and mo: "map_of m = (\<lambda>k. if k \<in> set ?S then Some (of_nat (index_of ?S k)) else None)"
    using d by (simp_all add: dict_of_def)
  have entries: "set m = (\<lambda>i. (?S ! i, of_nat i)) ` {..<length ?S}"
  proof (intro set_eqI iffI)
    fix kv :: "'k \<times> cint"
    assume "kv \<in> set m"
    then have k: "fst kv \<in> set ?S" and v: "snd kv = of_nat (index_of ?S (fst kv))"
      using dict_of_entry [OF d, of "fst kv" "snd kv"] by simp_all
    have "kv = (?S ! index_of ?S (fst kv), of_nat (index_of ?S (fst kv)))"
      using nth_index_of [OF k] v by (simp add: prod_eq_iff)
    then show "kv \<in> (\<lambda>i. (?S ! i, of_nat i)) ` {..<length ?S}"
      using index_of_less [OF k] by blast
  next
    fix kv :: "'k \<times> cint"
    assume "kv \<in> (\<lambda>i. (?S ! i, of_nat i)) ` {..<length ?S}"
    then obtain i where i: "i < length ?S" and kv: "kv = (?S ! i, of_nat i)" by auto
    show "kv \<in> set m"
      using i dS by (simp add: kv dict_of_entry [OF d] index_of_nth)
  qed
  have "(\<lambda>kv. sint (snd kv)) ` set m = (\<lambda>i. sint (of_nat i :: cint)) ` {..<length ?S}"
    by (simp add: entries image_image)
  also have "\<dots> = int ` {..<length ?S}"
    using n by (intro image_cong) (simp_all add: sint_of_nat_small)
  also have "\<dots> = {0..<int (length ?S)}"
    using image_int_atLeastLessThan [of 0 "length ?S"] by (simp add: lessThan_atLeast0)
  finally have dense: "(\<lambda>kv. sint (snd kv)) ` set m = {0..<int (length m)}"
    by (simp add: len)
  have pos: "\<forall>i<length ?S. map_of m (?S ! i) = Some (of_nat i)"
    using dS by (simp add: mo index_of_nth)
  have str: "\<forall>k \<in> set stream. map_of m k = Some (of_nat (index_of ?S k))"
    by (simp add: mo set_first_seen)
  show ?thesis
    unfolding indexes_def using dm dense len pos str by simp
qed

lemma index_key_keeps: "set m \<subseteq> set (snd (index_key lt m k))"
proof (cases "QMap_contains m k")
  case True
  then show ?thesis by (simp add: index_key_def)
next
  case False
  then have "k \<notin> fst ` set m"
    by (simp add: QMap_contains_def map_of_eq_None_iff)
  then show ?thesis using False
    by (auto simp: index_key_def QMap_insert_def set_sorted_put_new)
qed

subsection \<open>The loops of \<^verbatim>\<open>buildUniqueVectors\<close>\<close>

text \<open>The two loops are a left fold of the loop body over the cells of the grid, and the cells
  that are skipped leave the state as it is. After the fold over the retained cells \<open>cs\<close>
  the three maps are the dictionaries of the three key streams of \<open>cs\<close>.\<close>

lemma pixelBody_skip: "\<not> retains cell \<Longrightarrow> pixelBody i j cell st = st"
  by (auto simp: pixelBody_def retains_def cell_color_def cell_shape_def cell_depth_def
      QJsonObject_take_def value_remove_other Let_def)

lemma pixelBody_retained:
  assumes "retains cell"
  shows "pixelBody i j cell st =
     (let si = index_key qstring_less (uniqueShapes st) (toString (cell_shape cell));
          ci = index_key qstring_less (uniqueColors st) (toString (cell_color cell));
          mi = index_key qpair_less (uniqueMeshes st) (fst si, fst ci)
      in \<lparr>uniqueShapes = snd si, uniqueColors = snd ci, uniqueMeshes = snd mi,
          nodes = nodes st @ [\<lparr>mesh = fst mi, depth = toInt (cell_depth cell), row = i, col = j\<rparr>]\<rparr>)"
  using assms
  by (simp add: pixelBody_def retains_def cell_color_def cell_shape_def cell_depth_def
      QJsonObject_take_def value_remove_other Let_def index_key_def split: prod.splits)

lemma pixelBody_keeps:
  "set (uniqueShapes st) \<subseteq> set (uniqueShapes (pixelBody i j cell st)) \<and>
   set (uniqueColors st) \<subseteq> set (uniqueColors (pixelBody i j cell st)) \<and>
   set (uniqueMeshes st) \<subseteq> set (uniqueMeshes (pixelBody i j cell st))"
proof (cases "retains cell")
  case True
  show ?thesis
    unfolding pixelBody_retained [OF True] Let_def
    by (simp add: index_key_keeps)
next
  case False
  then show ?thesis by (simp add: pixelBody_skip)
qed

lemma rowLoop_foldl:
  "rowLoop cells (of_nat i) (of_nat j) st =
     foldl cell_step st (map (\<lambda>(j, c). (i, j, c)) (enumerate j cells))"
proof (induction cells arbitrary: j st)
  case Nil
  then show ?case by simp
next
  case (Cons c cells)
  have "(of_nat j + 1 :: cint) = of_nat (Suc j)" by simp
  then show ?case using Cons.IH [of "Suc j"] by (simp add: cell_step_def del: of_nat_Suc)
qed

lemma pixelLoop_foldl:
  "pixelLoop rows (of_nat i) st =
     foldl cell_step st
       (concat (map (\<lambda>(i, r). map (\<lambda>(j, c). (i, j, c)) (enumerate 0 (toArray r))) (enumerate i rows)))"
proof (induction rows arbitrary: i st)
  case Nil
  then show ?case by simp
next
  case (Cons r rows)
  have "(of_nat i + 1 :: cint) = of_nat (Suc i)" by simp
  then show ?case using Cons.IH [of "Suc i"] rowLoop_foldl [of "toArray r" i 0 st]
    by (simp del: of_nat_Suc)
qed

lemma foldl_cell_step_filter:
  "foldl cell_step st cs = foldl cell_step st (filter (\<lambda>(i, j, c). retains c) cs)"
  by (induction cs arbitrary: st) (auto simp: cell_step_def pixelBody_skip)

lemma pixelLoop_retained: "pixelLoop pixelMap 0 st = foldl cell_step st (retained pixelMap)"
  using pixelLoop_foldl [of pixelMap 0 st] foldl_cell_step_filter [of st "grid_cells pixelMap"]
  by (simp add: retained_def grid_cells_def)

lemma retained_retains: "x \<in> set (retained pixelMap) \<Longrightarrow> retains (snd (snd x))"
  by (auto simp: retained_def)

lemma shapes_of_snoc: "shapes_of (cs @ [x]) = seen_add (shapes_of cs) (shape_name x)"
  by (simp add: shapes_of_def first_seen_snoc)

lemma colors_of_snoc: "colors_of (cs @ [x]) = seen_add (colors_of cs) (color_name x)"
  by (simp add: colors_of_def first_seen_snoc)

lemma mesh_key_snoc: "c \<in> set cs \<Longrightarrow> mesh_key (cs @ [x]) c = mesh_key cs c"
proof -
  assume c: "c \<in> set cs"
  then have "shape_name c \<in> set (shapes_of cs)" "color_name c \<in> set (colors_of cs)"
    by (simp_all add: shapes_of_def colors_of_def set_first_seen)
  then show ?thesis
    by (simp add: mesh_key_def shapes_of_snoc colors_of_snoc index_of_seen_add)
qed

lemma meshes_of_snoc: "meshes_of (cs @ [x]) = seen_add (meshes_of cs) (mesh_key (cs @ [x]) x)"
proof -
  have eq: "map (mesh_key (cs @ [x])) cs = map (mesh_key cs) cs"
    by (rule map_cong) (simp_all add: mesh_key_snoc)
  show ?thesis
    by (simp only: meshes_of_def map_append list.map first_seen_snoc eq)
qed

lemma node_of_snoc: "c \<in> set cs \<Longrightarrow> node_of (cs @ [x]) c = node_of cs c"
proof -
  assume c: "c \<in> set cs"
  then have "mesh_key cs c \<in> set (meshes_of cs)"
    by (simp add: meshes_of_def set_first_seen)
  with c show ?thesis
    by (simp add: node_of_def mesh_key_snoc meshes_of_snoc index_of_seen_add)
qed

lemma shapes_of_Nil: "shapes_of [] = []" "colors_of [] = []" "meshes_of [] = []"
  by (simp_all add: shapes_of_def colors_of_def meshes_of_def first_seen_Nil)

lemma shapes_of_Cons: "\<exists>rest. shapes_of (x # xs) = shape_name x # rest"
  using first_seen_Cons [of "shape_name x" "map shape_name xs"] by (simp add: shapes_of_def)

lemma mesh_key_in_meshes: "c \<in> set cs \<Longrightarrow> mesh_key cs c \<in> set (meshes_of cs)"
  by (simp add: meshes_of_def set_first_seen)

lemma color_in_colors: "c \<in> set cs \<Longrightarrow> color_name c \<in> set (colors_of cs)"
  by (simp add: colors_of_def set_first_seen)

lemma meshes_of_entry:
  assumes "m < length (meshes_of cs)"
  shows "\<exists>c \<in> set cs. meshes_of cs ! m = mesh_key cs c"
proof -
  have "meshes_of cs ! m \<in> set (meshes_of cs)" using assms by simp
  then have "meshes_of cs ! m \<in> mesh_key cs ` set cs"
    by (simp add: meshes_of_def set_first_seen)
  then show ?thesis by auto
qed

lemma nth_retained_node:
  assumes "k < length cs" "cs ! k = (i, j, c)"
  shows "row (map (node_of cs) cs ! k) = of_nat i" "col (map (node_of cs) cs ! k) = of_nat j"
    "depth (map (node_of cs) cs ! k) = toInt (cell_depth c)"
  using assms by (simp_all add: node_of_def depth_of_def)

lemma indexed_by_step:
  assumes inv: "indexed_by cs nodes0 st" and r: "retains (snd (snd x))"
  shows "indexed_by (cs @ [x]) nodes0 (cell_step st x)"
proof -
  define si where "si = index_key qstring_less (uniqueShapes st) (shape_name x)"
  define ci where "ci = index_key qstring_less (uniqueColors st) (color_name x)"
  define mi where "mi = index_key qpair_less (uniqueMeshes st) (fst si, fst ci)"
  have s: "dict_of (shapes_of (cs @ [x])) (snd si)"
    and sv: "fst si = of_nat (index_of (shapes_of (cs @ [x])) (shape_name x))"
    using inv dict_of_step [where S = "shapes_of cs" and m = "uniqueShapes st" and k = "shape_name x"
        and lt = qstring_less]
    by (simp_all add: indexed_by_def si_def shapes_of_snoc)
  have c: "dict_of (colors_of (cs @ [x])) (snd ci)"
    and cv: "fst ci = of_nat (index_of (colors_of (cs @ [x])) (color_name x))"
    using inv dict_of_step [where S = "colors_of cs" and m = "uniqueColors st" and k = "color_name x"
        and lt = qstring_less]
    by (simp_all add: indexed_by_def ci_def colors_of_snoc)
  have key: "(fst si, fst ci) = mesh_key (cs @ [x]) x"
    by (simp add: mesh_key_def sv cv)
  have m: "dict_of (meshes_of (cs @ [x])) (snd mi)"
    and mv: "fst mi = of_nat (index_of (meshes_of (cs @ [x])) (mesh_key (cs @ [x]) x))"
    using inv dict_of_step [where S = "meshes_of cs" and m = "uniqueMeshes st"
        and k = "mesh_key (cs @ [x]) x" and lt = qpair_less]
    by (simp_all add: indexed_by_def mi_def key meshes_of_snoc)
  have step: "cell_step st x =
      \<lparr>uniqueShapes = snd si, uniqueColors = snd ci, uniqueMeshes = snd mi,
       nodes = nodes st @ [\<lparr>mesh = fst mi, depth = depth_of x, row = of_nat (fst x),
                            col = of_nat (fst (snd x))\<rparr>]\<rparr>"
    using pixelBody_retained [OF r, of "of_nat (fst x)" "of_nat (fst (snd x))" st]
    by (simp add: cell_step_def si_def ci_def mi_def shape_name_def color_name_def depth_of_def Let_def)
  have old: "map (node_of (cs @ [x])) cs = map (node_of cs) cs"
    by (rule map_cong) (simp_all add: node_of_snoc)
  have new: "\<lparr>mesh = fst mi, depth = depth_of x, row = of_nat (fst x), col = of_nat (fst (snd x))\<rparr>
      = node_of (cs @ [x]) x"
    by (simp add: node_of_def mv)
  show ?thesis
    using inv s c m by (simp add: indexed_by_def step old new)
qed

lemma indexed_by_foldl:
  assumes "\<forall>x \<in> set cs. retains (snd (snd x))"
  shows "indexed_by cs nodes0
           (foldl cell_step \<lparr>uniqueShapes = [], uniqueColors = [], uniqueMeshes = [], nodes = nodes0\<rparr> cs)"
  using assms
proof (induction cs rule: rev_induct)
  case Nil
  show ?case
    by (simp add: indexed_by_def shapes_of_def colors_of_def meshes_of_def first_seen_def dict_of_empty)
next
  case (snoc x cs)
  then show ?case by (simp add: indexed_by_step)
qed

lemma indexed_by_pixelLoop:
  "indexed_by (retained pixelMap) nodes0
     (pixelLoop pixelMap 0 \<lparr>uniqueShapes = [], uniqueColors = [], uniqueMeshes = [], nodes = nodes0\<rparr>)"
  by (simp add: pixelLoop_retained indexed_by_foldl retained_retains)

subsection \<open>From the maps to the vectors\<close>

text \<open>Filling the vector from the dictionary of \<open>S\<close> gives \<open>S\<close> when \<open>S\<close> has fewer than \<open>2^31\<close>
  keys, and faults otherwise.\<close>

lemma fillVector_in_range:
  "\<forall>kv \<in> set m. 0 \<le> sint (snd kv) \<and> sint (snd kv) < int (length vec) \<Longrightarrow>
   fillVector m vec = Inr (foldl (\<lambda>xs kv. xs[nat (sint (snd kv)) := fst kv]) vec m)"
proof (induction m arbitrary: vec)
  case Nil
  then show ?case by simp
next
  case (Cons a m)
  obtain k v where a: "a = (k, v)" by (cases a)
  from Cons.prems have "0 \<le> sint v \<and> sint v < int (length vec)" by (simp add: a)
  moreover have "\<forall>kv \<in> set m. 0 \<le> sint (snd kv) \<and> sint (snd kv) < int (length (vec[nat (sint v) := k]))"
    using Cons.prems by simp
  ultimately show ?case using Cons.IH [of "vec[nat (sint v) := k]"]
    by (simp add: a QVector_set_def)
qed

lemma fillVector_Inr_range:
  "fillVector m vec = Inr v \<Longrightarrow>
   \<forall>kv \<in> set m. 0 \<le> sint (snd kv) \<and> sint (snd kv) < int (length vec)"
proof (induction m arbitrary: vec)
  case Nil
  then show ?case by simp
next
  case (Cons a m)
  obtain k i where a: "a = (k, i)" by (cases a)
  from Cons.prems have r: "0 \<le> sint i \<and> sint i < int (length vec)"
    by (auto simp: a QVector_set_def split: if_splits)
  with Cons.prems have "fillVector m (vec[nat (sint i) := k]) = Inr v"
    by (simp add: a QVector_set_def)
  from Cons.IH [OF this] r show ?case by (simp add: a)
qed

lemma length_foldl_update:
  "length (foldl (\<lambda>xs kv. xs[f kv := g kv]) vec m) = length vec"
  by (induction m arbitrary: vec) simp_all

lemma nth_foldl_update:
  assumes "(k, v) \<in> set m" "f (k, v) = p" "p < length vec"
    and "\<forall>kv \<in> set m. f kv = p \<longrightarrow> g kv = x"
  shows "foldl (\<lambda>xs kv. xs[f kv := g kv]) vec m ! p = x"
  using assms
proof (induction m rule: rev_induct)
  case Nil
  then show ?case by simp
next
  case (snoc a m)
  show ?case
  proof (cases "f a = p")
    case True
    then show ?thesis using snoc.prems by (simp add: length_foldl_update)
  next
    case False
    with snoc.prems have "(k, v) \<in> set m" by auto
    with snoc.IH snoc.prems False show ?thesis by simp
  qed
qed

lemma fillVector_dict:
  assumes d: "dict_of S m" and n: "length S < 2 ^ 31"
  shows "fillVector m (QVector_resize [] (QMap_size m) dflt) = Inr S"
proof -
  have len: "length m = length S" and dS: "distinct S" using d by (simp_all add: dict_of_def)
  have sz: "nat (sint (QMap_size m)) = length S"
    using n by (simp add: QMap_size_def len sint_of_nat_small)
  let ?vec = "replicate (length S) dflt"
  let ?f = "\<lambda>kv :: 'a \<times> cint. nat (sint (snd kv))"
  have vec: "QVector_resize [] (QMap_size m) dflt = ?vec"
    by (simp add: QVector_resize_def sz)
  have idx: "sint (of_nat (index_of S k) :: cint) = int (index_of S k)" if "k \<in> set S" for k
    using index_of_less [OF that] n by (intro sint_of_nat_small) simp
  have range: "\<forall>kv \<in> set m. 0 \<le> sint (snd kv) \<and> sint (snd kv) < int (length ?vec)"
  proof
    fix kv assume "kv \<in> set m"
    then have "fst kv \<in> set S" "snd kv = of_nat (index_of S (fst kv))"
      using dict_of_entry [OF d, of "fst kv" "snd kv"] by simp_all
    then show "0 \<le> sint (snd kv) \<and> sint (snd kv) < int (length ?vec)"
      using idx [of "fst kv"] index_of_less [of "fst kv" S] by simp
  qed
  let ?res = "foldl (\<lambda>xs kv. xs[?f kv := fst kv]) ?vec m"
  have "?res = S"
  proof (rule nth_equalityI)
    show "length ?res = length S" by (simp add: length_foldl_update)
  next
    fix p assume "p < length ?res"
    then have p: "p < length S" by (simp add: length_foldl_update)
    have mem: "(S ! p, of_nat p) \<in> set m"
      using p dS by (simp add: dict_of_entry [OF d] index_of_nth)
    have fp: "?f (S ! p, of_nat p :: cint) = p"
      using p n by (simp add: sint_of_nat_small)
    have uniq: "\<forall>kv \<in> set m. ?f kv = p \<longrightarrow> fst kv = S ! p"
    proof (intro ballI impI)
      fix kv assume kv: "kv \<in> set m" and f: "?f kv = p"
      then have k: "fst kv \<in> set S" and v: "snd kv = of_nat (index_of S (fst kv))"
        using dict_of_entry [OF d, of "fst kv" "snd kv"] by simp_all
      from f have "index_of S (fst kv) = p" using idx [OF k] by (simp add: v)
      then show "fst kv = S ! p" using nth_index_of [OF k] by simp
    qed
    show "?res ! p = S ! p"
      using nth_foldl_update [of "S ! p" "of_nat p" m ?f p ?vec fst "S ! p"] mem fp p uniq
      by simp
  qed
  then show ?thesis using fillVector_in_range [OF range] by (simp add: vec)
qed

lemma fillVector_dict_bound:
  assumes d: "dict_of S m" and f: "fillVector m (QVector_resize [] (QMap_size m) dflt) = Inr v"
  shows "length S < 2 ^ 31"
proof (rule ccontr)
  assume "\<not> length S < 2 ^ 31"
  then have big: "2 ^ 31 \<le> length S" by simp
  define n where "n = nat (sint (QMap_size m))"
  have "sint (QMap_size m) < 2 ^ 31" using sint_lt [of "QMap_size m"] by simp
  then have n: "n < 2 ^ 31" unfolding n_def
    by (cases "0 \<le> sint (QMap_size m)") (simp_all add: nat_less_iff)
  with big have nS: "n < length S" by simp
  have dS: "distinct S" using d by (simp add: dict_of_def)
  have mem: "(S ! n, of_nat n) \<in> set m"
    using nS dS by (simp add: dict_of_entry [OF d] index_of_nth)
  have "length (QVector_resize [] (QMap_size m) dflt) = n"
    by (simp add: QVector_resize_def n_def)
  with fillVector_Inr_range [OF f] mem have "sint (of_nat n :: cint) < int n" by fastforce
  then show False using n by (simp add: sint_of_nat_small)
qed

lemma buildUniqueVectors_retained:
  assumes "length (retained pixelMap) < 2 ^ 31"
  shows "buildUniqueVectors pixelMap [] [] [] [] =
           Inr (shapes_of (retained pixelMap), colors_of (retained pixelMap),
                meshes_of (retained pixelMap), map (node_of (retained pixelMap)) (retained pixelMap))"
proof -
  let ?cs = "retained pixelMap"
  let ?st = "pixelLoop pixelMap 0 \<lparr>uniqueShapes = [], uniqueColors = [], uniqueMeshes = [], nodes = []\<rparr>"
  have inv: "indexed_by ?cs [] ?st" by (rule indexed_by_pixelLoop)
  have "length (shapes_of ?cs) \<le> length ?cs" "length (colors_of ?cs) \<le> length ?cs"
    "length (meshes_of ?cs) \<le> length ?cs"
    using length_first_seen [of "map shape_name ?cs"] length_first_seen [of "map color_name ?cs"]
      length_first_seen [of "map (mesh_key ?cs) ?cs"]
    by (simp_all add: shapes_of_def colors_of_def meshes_of_def)
  then have b: "length (shapes_of ?cs) < 2 ^ 31" "length (colors_of ?cs) < 2 ^ 31"
    "length (meshes_of ?cs) < 2 ^ 31"
    using assms by linarith+
  have "fillVector (uniqueShapes ?st) (QVector_resize [] (QMap_size (uniqueShapes ?st)) []) = Inr (shapes_of ?cs)"
    using inv b by (intro fillVector_dict) (simp_all add: indexed_by_def)
  moreover have "fillVector (uniqueColors ?st) (QVector_resize [] (QMap_size (uniqueColors ?st)) []) = Inr (colors_of ?cs)"
    using inv b by (intro fillVector_dict) (simp_all add: indexed_by_def)
  moreover have "fillVector (uniqueMeshes ?st) (QVector_resize [] (QMap_size (uniqueMeshes ?st)) (0, 0)) = Inr (meshes_of ?cs)"
    using inv b by (intro fillVector_dict) (simp_all add: indexed_by_def)
  moreover have "nodes ?st = map (node_of ?cs) ?cs" using inv by (simp add: indexed_by_def)
  ultimately show ?thesis by (simp add: buildUniqueVectors_def Let_def)
qed

lemma buildUniqueVectors_Inr:
  assumes "buildUniqueVectors pixelMap [] [] [] [] = Inr (shapes, colors, meshes, nodes0)"
  shows "shapes = shapes_of (retained pixelMap)" "colors = colors_of (retained pixelMap)"
    "meshes = meshes_of (retained pixelMap)"
    "nodes0 = map (node_of (retained pixelMap)) (retained pixelMap)"
    "length shapes < 2 ^ 31" "length colors < 2 ^ 31" "length meshes < 2 ^ 31"
proof -
  let ?cs = "retained pixelMap"
  let ?st = "pixelLoop pixelMap 0 \<lparr>uniqueShapes = [], uniqueColors = [], uniqueMeshes = [], nodes = []\<rparr>"
  have inv: "indexed_by ?cs [] ?st" by (rule indexed_by_pixelLoop)
  then have ds: "dict_of (shapes_of ?cs) (uniqueShapes ?st)"
    and dc: "dict_of (colors_of ?cs) (uniqueColors ?st)"
    and dm: "dict_of (meshes_of ?cs) (uniqueMeshes ?st)"
    and nd: "nodes ?st = map (node_of ?cs) ?cs"
    by (simp_all add: indexed_by_def)
  from assms have fs: "fillVector (uniqueShapes ?st) (QVector_resize [] (QMap_size (uniqueShapes ?st)) []) = Inr shapes"
    and fc: "fillVector (uniqueColors ?st) (QVector_resize [] (QMap_size (uniqueColors ?st)) []) = Inr colors"
    and fm: "fillVector (uniqueMeshes ?st) (QVector_resize [] (QMap_size (uniqueMeshes ?st)) (0, 0)) = Inr meshes"
    and n0: "nodes0 = nodes ?st"
    by (auto simp: buildUniqueVectors_def Let_def split: sum.splits)
  have bs: "length (shapes_of ?cs) < 2 ^ 31" by (rule fillVector_dict_bound [OF ds fs])
  have bc: "length (colors_of ?cs) < 2 ^ 31" by (rule fillVector_dict_bound [OF dc fc])
  have bm: "length (meshes_of ?cs) < 2 ^ 31" by (rule fillVector_dict_bound [OF dm fm])
  show "shapes = shapes_of ?cs" using fs fillVector_dict [OF ds bs, of "[]"] by simp
  then show "length shapes < 2 ^ 31" using bs by simp
  show "colors = colors_of ?cs" using fc fillVector_dict [OF dc bc, of "[]"] by simp
  then show "length colors < 2 ^ 31" using bc by simp
  show "meshes = meshes_of ?cs" using fm fillVector_dict [OF dm bm, of "(0, 0)"] by simp
  then show "length meshes < 2 ^ 31" using bm by simp
  show "nodes0 = map (node_of ?cs) ?cs" using n0 nd by simp
qed

lemma buildUniqueVectors_total:
  "length (retained pixelMap) < 2 ^ 31 \<Longrightarrow>
   \<exists>shapes colors meshes nodes0.
     buildUniqueVectors pixelMap [] [] [] [] = Inr (shapes, colors, meshes, nodes0)"
  by (simp add: buildUniqueVectors_retained)

subsection \<open>The parts of the document\<close>

lemma nodes_length:
  "jlength (QJsonObject_value (insertNodes em nodes0 h) ''nodes'') = Suc (length nodes0)"
  by (simp add: insertNodes_def Let_def value_insert jlength_JArray)

lemma nodes_item:
  assumes "k < length nodes0"
  shows "jfield (jitem (QJsonObject_value (insertNodes em nodes0 h) ''nodes'') k) ''mesh'' =
           json_of_int (mesh (nodes0 ! k))"
    and "jfield (jitem (QJsonObject_value (insertNodes em nodes0 h) ''nodes'') k) ''translation'' =
           JArray [json_of_int (row (nodes0 ! k) * 2 + 1), json_of_int (col (nodes0 ! k) * 2 + 1),
                   JDouble 0]"
    and "jfield (jitem (QJsonObject_value (insertNodes em nodes0 h) ''nodes'') k) ''scale'' =
           JArray [JDouble 1, JDouble 1, json_of_int (2 * depth (nodes0 ! k) - 1)]"
  using assms
  by (simp_all add: insertNodes_def Let_def value_insert jitem_JArray nth_append jfield_JObject
      QJsonObject_of_def value_empty)

lemma nodes_root:
  "jfield (jitem (QJsonObject_value (insertNodes em nodes0 h) ''nodes'') (length nodes0)) ''children'' =
     JArray (map (\<lambda>i. json_of_int (of_nat i)) [0..<length nodes0])"
  "jfield (jitem (QJsonObject_value (insertNodes em nodes0 h) ''nodes'') (length nodes0)) ''translation'' =
     JArray [JDouble 0, json_of_int (2 * h), JDouble 0]"
  "jfield (jitem (QJsonObject_value (insertNodes em nodes0 h) ''nodes'') (length nodes0)) ''rotation'' =
     JArray [JDouble 0, JDouble 0, JDouble (- rotation_component), JDouble rotation_component]"
  by (simp_all add: insertNodes_def Let_def value_insert jitem_JArray nth_append jfield_JObject
      QJsonObject_of_def value_empty)

lemma scenes_value:
  "QJsonObject_value (insertScene em n) ''scenes'' =
     JArray [JObject [(''nodes'', JArray [json_of_int n])]]"
  by (simp add: insertScene_def value_insert QJsonObject_of_single)

lemma meshes_length:
  "jlength (QJsonObject_value (insertMeshes em meshes) ''meshes'') = length meshes"
  by (simp add: insertMeshes_def Let_def value_insert jlength_JArray)

lemma meshes_item:
  assumes "m < length meshes"
  shows "jlength (jfield (jitem (QJsonObject_value (insertMeshes em meshes) ''meshes'') m) ''primitives'') = 1"
    and "jfield (jfield (jitem (jfield (jitem (QJsonObject_value (insertMeshes em meshes) ''meshes'') m)
            ''primitives'') 0) ''attributes'') ''POSITION'' = json_of_int (fst (meshes ! m) * 3)"
    and "jfield (jfield (jitem (jfield (jitem (QJsonObject_value (insertMeshes em meshes) ''meshes'') m)
            ''primitives'') 0) ''attributes'') ''NORMAL'' = json_of_int (fst (meshes ! m) * 3 + 1)"
    and "jfield (jitem (jfield (jitem (QJsonObject_value (insertMeshes em meshes) ''meshes'') m)
            ''primitives'') 0) ''indices'' = json_of_int (fst (meshes ! m) * 3 + 2)"
    and "jfield (jitem (jfield (jitem (QJsonObject_value (insertMeshes em meshes) ''meshes'') m)
            ''primitives'') 0) ''material'' = json_of_int (snd (meshes ! m))"
  using assms
  by (simp_all add: insertMeshes_def Let_def value_insert jitem_JArray jlength_JArray jfield_JObject
      QJsonObject_of_def value_empty)

lemma materials_length: "length (materialsFromColors e colors a b) = length colors"
  by (simp add: materialsFromColors_def)

lemma insertShapeData_Nil: "insertShapeData e exportModel [] = Inl IndexOutOfRange"
  by (simp add: insertShapeData_def QVector_at_0)

lemma insertShapeData_Cons:
  "insertShapeData e exportModel (s # rest) =
     (case shapeFile e (shape_path s) of
        Absent \<Rightarrow> Inr (False, exportModel)
      | Unopenable \<Rightarrow> Inr (False, exportModel)
      | Readable parsed \<Rightarrow>
          Inr (True,
            QJsonObject_insert
              (QJsonObject_insert
                 (QJsonObject_insert exportModel ''buffers''
                    (QJsonObject_value (document_object parsed) ''buffers''))
                 ''bufferViews'' (QJsonObject_value (document_object parsed) ''bufferViews''))
              ''accessors'' (QJsonObject_value (document_object parsed) ''accessors'')))"
  by (simp add: insertShapeData_def QVector_at_0 shape_path_def QJsonObject_take_def Let_def
      value_remove_other split: resource.splits)

lemma insertShapeData_keeps:
  assumes "insertShapeData e exportModel shapes = Inr (found, exportModel')"
    and "key \<noteq> ''buffers''" "key \<noteq> ''bufferViews''" "key \<noteq> ''accessors''"
  shows "QJsonObject_value exportModel' key = QJsonObject_value exportModel key"
proof (cases shapes)
  case Nil
  with assms show ?thesis by (simp add: insertShapeData_Nil)
next
  case (Cons s rest)
  with assms show ?thesis
    by (auto simp: insertShapeData_Cons value_insert split: resource.splits)
qed

lemma insertShapeData_no_fault: "shapes \<noteq> [] \<Longrightarrow> insertShapeData e exportModel shapes \<noteq> Inl f"
  by (cases shapes) (simp_all add: insertShapeData_Cons split: resource.splits)

lemma assemble_nodes:
  "QJsonObject_value (assemble e colors meshes nodes0 height) ''nodes'' =
     QJsonObject_value (insertNodes [] nodes0 height) ''nodes''"
  by (simp add: assemble_def insertMaterials_def insertMeshes_def insertNodes_def value_insert Let_def)

lemma assemble_meshes:
  "QJsonObject_value (assemble e colors meshes nodes0 height) ''meshes'' =
     QJsonObject_value (insertMeshes [] meshes) ''meshes''"
  by (simp add: assemble_def insertMaterials_def insertMeshes_def value_insert Let_def)

lemma assemble_materials:
  "QJsonObject_value (assemble e colors meshes nodes0 height) ''materials'' =
     JArray (materialsFromColors e colors (metallicFactor e) (roughnessFactor e))"
  by (simp add: assemble_def insertMaterials_def value_insert)

lemma assemble_scenes:
  "QJsonObject_value (assemble e colors meshes nodes0 height) ''scenes'' =
     QJsonObject_value (insertScene [] (QVector_size nodes0)) ''scenes''"
  by (simp add: assemble_def insertMaterials_def insertMeshes_def insertNodes_def insertScene_def
      value_insert Let_def)

subsection \<open>The paths through \<^verbatim>\<open>write\<close>\<close>

lemma write'_invalid_version:
  "input_version data \<noteq> ''1.0'' \<Longrightarrow>
   write' e d fileName data =
     Inr (Emit_error (toLocalFile fileName)
            (''Invalid version number [1.0 != '' @ input_version data @ '']''), d)"
  by (simp add: write'_def input_version_def QJsonObject_take_def Let_def)

lemma write'_invalid_size:
  "input_version data = ''1.0'' \<Longrightarrow> input_width data \<noteq> input_height data \<Longrightarrow>
   write' e d fileName data = Inr (Emit_error (toLocalFile fileName) ''invalid size'', d)"
  by (simp add: write'_def input_version_def input_width_def input_height_def
      QJsonObject_take_def Let_def value_remove_other)

lemma write'_valid:
  assumes "input_version data = ''1.0''" "input_width data = input_height data"
  shows "write' e d fileName data =
     (case buildUniqueVectors (input_pixels data) [] [] [] [] of
        Inl f \<Rightarrow> Inl f
      | Inr (shapes, colors, meshes, nodes0) \<Rightarrow>
          (case insertShapeData e (assemble e colors meshes nodes0 (input_height data)) shapes of
             Inl f \<Rightarrow> Inl f
           | Inr (found, exportModel') \<Rightarrow>
               if \<not> found
               then Inr (Emit_error (toLocalFile fileName) ''Can't find or open shape files'', d)
               else if \<not> writable e (toLocalFile fileName)
               then Inr (Emit_error (toLocalFile fileName) ''Can't write to file!'', d)
               else Inr (Emit_exported (toLocalFile fileName),
                         (toLocalFile fileName, JObject exportModel') # d)))"
  using assms
  by (simp add: write'_def input_version_def input_width_def input_height_def input_pixels_def
      QJsonObject_take_def Let_def value_remove_other assemble_def writeModel_def
      split: sum.splits prod.splits)

lemma write'_exported:
  assumes "write' e d fileName data = Inr (Emit_exported f, d')"
  shows "\<exists>shapes colors meshes nodes0 exportModel'.
           input_version data = ''1.0'' \<and> input_width data = input_height data \<and>
           buildUniqueVectors (input_pixels data) [] [] [] [] = Inr (shapes, colors, meshes, nodes0) \<and>
           insertShapeData e (assemble e colors meshes nodes0 (input_height data)) shapes =
             Inr (True, exportModel') \<and>
           f = toLocalFile fileName \<and> d' = (f, JObject exportModel') # d"
proof -
  have v: "input_version data = ''1.0''"
    using assms write'_invalid_version [of data e d fileName] by auto
  have s: "input_width data = input_height data"
    using assms v write'_invalid_size [of data e d fileName] by auto
  show ?thesis
    using assms unfolding write'_valid [OF v s]
    by (auto simp: v s split: sum.splits prod.splits if_splits)
qed

lemma exported_fields:
  assumes "write' e d fileName data = Inr (Emit_exported f, (f', doc) # d')"
  shows "\<exists>shapes colors meshes nodes0.
           buildUniqueVectors (input_pixels data) [] [] [] [] = Inr (shapes, colors, meshes, nodes0) \<and>
           shapes \<noteq> [] \<and>
           jfield doc ''nodes'' = QJsonObject_value (insertNodes [] nodes0 (input_height data)) ''nodes'' \<and>
           jfield doc ''meshes'' = QJsonObject_value (insertMeshes [] meshes) ''meshes'' \<and>
           jfield doc ''materials'' =
             JArray (materialsFromColors e colors (metallicFactor e) (roughnessFactor e)) \<and>
           jfield doc ''scenes'' =
             JArray [JObject [(''nodes'', JArray [json_of_int (QVector_size nodes0)])]]"
proof -
  from write'_exported [OF assms] obtain shapes colors meshes nodes0 exportModel' where
    b: "buildUniqueVectors (input_pixels data) [] [] [] [] = Inr (shapes, colors, meshes, nodes0)"
    and i: "insertShapeData e (assemble e colors meshes nodes0 (input_height data)) shapes =
             Inr (True, exportModel')"
    and doc: "doc = JObject exportModel'"
    by auto
  have ne: "shapes \<noteq> []" using i by (auto simp: insertShapeData_Nil)
  note keep = insertShapeData_keeps [OF i]
  have "jfield doc ''nodes'' = QJsonObject_value (insertNodes [] nodes0 (input_height data)) ''nodes''"
    by (simp add: doc jfield_JObject keep assemble_nodes)
  moreover have "jfield doc ''meshes'' = QJsonObject_value (insertMeshes [] meshes) ''meshes''"
    by (simp add: doc jfield_JObject keep assemble_meshes)
  moreover have "jfield doc ''materials'' =
      JArray (materialsFromColors e colors (metallicFactor e) (roughnessFactor e))"
    by (simp add: doc jfield_JObject keep assemble_materials)
  moreover have "jfield doc ''scenes'' =
      JArray [JObject [(''nodes'', JArray [json_of_int (QVector_size nodes0)])]]"
    by (simp add: doc jfield_JObject keep assemble_scenes scenes_value)
  ultimately show ?thesis using b ne by blast
qed

section \<open>The properties\<close>

text \<open>
  A \<^verbatim>\<open>QVector\<close> holds fewer than \<open>2^31\<close> elements. Where a property counts the nodes in \<^verbatim>\<open>int\<close>,
  it is stated for grids with fewer than \<open>2^31\<close> retained cells. The document of an export is
  the content \<open>doc\<close> of the file that a run ending in the \<^verbatim>\<open>exported\<close> signal has written.
\<close>

text \<open>
  \<^bold>\<open>C1\<close>, as the code has it. \<^verbatim>\<open>buildUniqueVectors\<close> appends one node for every cell of the grid
  in which none of the values read for \<^verbatim>\<open>color\<close>, \<^verbatim>\<open>shape\<close> and \<^verbatim>\<open>depth\<close> is \<^verbatim>\<open>null\<close>, and none
  for the other cells; the node array of the document holds these nodes and the root node.
  It returns (without a fault) for every grid with fewer than \<open>2^31\<close> such cells. A cell
  in which an attribute is absent is not skipped: the value read is \<^verbatim>\<open>Undefined\<close>, which is
  not \<^verbatim>\<open>null\<close>.
\<close>

theorem node_count:
  "(\<forall>shapes colors meshes nodes0.
      buildUniqueVectors pixelMap [] [] [] [] = Inr (shapes, colors, meshes, nodes0) \<longrightarrow>
      length nodes0 = length (retained pixelMap) \<and>
      (\<forall>em h. jlength (QJsonObject_value (insertNodes em nodes0 h) ''nodes'') =
                length (retained pixelMap) + 1)) \<and>
   (length (retained pixelMap) < 2 ^ 31 \<longrightarrow>
      (\<exists>shapes colors meshes nodes0.
         buildUniqueVectors pixelMap [] [] [] [] = Inr (shapes, colors, meshes, nodes0))) \<and>
   (\<forall>e d fileName data f f' doc d'.
      input_pixels data = pixelMap \<and>
      write' e d fileName data = Inr (Emit_exported f, (f', doc) # d') \<longrightarrow>
      jlength (jfield doc ''nodes'') = length (retained pixelMap) + 1)"
proof (intro conjI allI impI)
  fix shapes colors meshes nodes0
  assume b: "buildUniqueVectors pixelMap [] [] [] [] = Inr (shapes, colors, meshes, nodes0)"
  show n: "length nodes0 = length (retained pixelMap)"
    using buildUniqueVectors_Inr(4) [OF b] by simp
  fix em h
  show "jlength (QJsonObject_value (insertNodes em nodes0 h) ''nodes'') = length (retained pixelMap) + 1"
    by (simp add: nodes_length n)
next
  assume "length (retained pixelMap) < 2 ^ 31"
  then show "\<exists>shapes colors meshes nodes0.
      buildUniqueVectors pixelMap [] [] [] [] = Inr (shapes, colors, meshes, nodes0)"
    by (rule buildUniqueVectors_total)
next
  fix e d fileName data f f' doc d'
  assume a: "input_pixels data = pixelMap \<and>
      write' e d fileName data = Inr (Emit_exported f, (f', doc) # d')"
  then have w: "write' e d fileName data = Inr (Emit_exported f, (f', doc) # d')" by simp
  from exported_fields [OF w] obtain shapes colors meshes nodes0 where
    b: "buildUniqueVectors (input_pixels data) [] [] [] [] = Inr (shapes, colors, meshes, nodes0)"
    and nd: "jfield doc ''nodes'' = QJsonObject_value (insertNodes [] nodes0 (input_height data)) ''nodes''"
    by blast
  have "length nodes0 = length (retained (input_pixels data))"
    using buildUniqueVectors_Inr(4) [OF b] by simp
  then show "jlength (jfield doc ''nodes'') = length (retained pixelMap) + 1"
    using a by (simp add: nd nodes_length)
qed

theorem node_count_witness:
  "retained [JArray [pixel ''cube'' ''red'' 1, empty_pixel, pixel ''cube'' ''blue'' 2]] =
     [(0, 0, pixel ''cube'' ''red'' 1), (0, 2, pixel ''cube'' ''blue'' 2)] \<and>
   buildUniqueVectors [JArray [pixel ''cube'' ''red'' 1, empty_pixel, pixel ''cube'' ''blue'' 2]]
       [] [] [] [] =
     Inr ([''cube''], [''red'', ''blue''], [(0, 0), (0, 1)],
          [\<lparr>mesh = 0, depth = 1, row = 0, col = 0\<rparr>, \<lparr>mesh = 1, depth = 2, row = 0, col = 2\<rparr>]) \<and>
   jlength (QJsonObject_value
      (insertNodes [] [\<lparr>mesh = 0, depth = 1, row = 0, col = 0\<rparr>,
                       \<lparr>mesh = 1, depth = 2, row = 0, col = 2\<rparr>] 1) ''nodes'') = 3"
proof -
  let ?pm = "[JArray [pixel ''cube'' ''red'' 1, empty_pixel, pixel ''cube'' ''blue'' 2]]"
  have r: "retained ?pm = [(0, 0, pixel ''cube'' ''red'' 1), (0, 2, pixel ''cube'' ''blue'' 2)]"
    by code_simp
  have b: "buildUniqueVectors ?pm [] [] [] [] =
     Inr ([''cube''], [''red'', ''blue''], [(0, 0), (0, 1)],
          [\<lparr>mesh = 0, depth = 1, row = 0, col = 0\<rparr>, \<lparr>mesh = 1, depth = 2, row = 0, col = 2\<rparr>])"
    by code_simp
  from node_count [of ?pm, THEN conjunct1, rule_format, OF b, THEN conjunct2, rule_format, of "[]" 1]
  have "jlength (QJsonObject_value
      (insertNodes [] [\<lparr>mesh = 0, depth = 1, row = 0, col = 0\<rparr>,
                       \<lparr>mesh = 1, depth = 2, row = 0, col = 2\<rparr>] 1) ''nodes'') = 3"
    by (simp add: r)
  with r b show ?thesis by simp
qed

text \<open>A cell with a shape and a colour and no depth: no cell of the grid has all three
  attributes, and the grid still yields one node, of depth 0.\<close>

theorem node_count_counterexample:
  "buildUniqueVectors [JArray [pixel_without_depth]] [] [] [] [] =
     Inr ([''cube''], [''red''], [(0, 0)], [\<lparr>mesh = 0, depth = 0, row = 0, col = 0\<rparr>]) \<and>
   well_formed_cells [JArray [pixel_without_depth]] = []"
  by code_simp

text \<open>
  \<^bold>\<open>C2\<close>. Whenever \<^verbatim>\<open>buildUniqueVectors\<close> returns, which it does for every grid with fewer
  than \<open>2^31\<close> retained cells, each of its three maps (shape names, colour strings, pairs of
  shape index and colour index) holds one entry per key, the indices are exactly
  \<open>0, \<dots>, size - 1\<close>, every key of the cell stream has the index of its first occurrence,
  and the vector returned for the map is the list of the keys in the order of their first
  occurrence, the key with index \<open>i\<close> at position \<open>i\<close>; the node of a cell carries the index
  of its pair. No step of the loop removes or changes an entry of a map.
\<close>

theorem dictionary_indices:
  assumes "length (retained pixelMap) < 2 ^ 31 \<or>
           buildUniqueVectors pixelMap [] [] [] [] \<noteq> Inl IndexOutOfRange"
  shows "buildUniqueVectors pixelMap [] [] [] [] =
           Inr (shapes_of (retained pixelMap), colors_of (retained pixelMap),
                meshes_of (retained pixelMap),
                map (node_of (retained pixelMap)) (retained pixelMap)) \<and>
         indexes (uniqueShapes (indexing pixelMap)) (map shape_name (retained pixelMap))
           (shapes_of (retained pixelMap)) \<and>
         indexes (uniqueColors (indexing pixelMap)) (map color_name (retained pixelMap))
           (colors_of (retained pixelMap)) \<and>
         indexes (uniqueMeshes (indexing pixelMap))
           (map (mesh_key (retained pixelMap)) (retained pixelMap))
           (meshes_of (retained pixelMap)) \<and>
         (\<forall>i j cell st.
            set (uniqueShapes st) \<subseteq> set (uniqueShapes (pixelBody i j cell st)) \<and>
            set (uniqueColors st) \<subseteq> set (uniqueColors (pixelBody i j cell st)) \<and>
            set (uniqueMeshes st) \<subseteq> set (uniqueMeshes (pixelBody i j cell st)))"
proof -
  let ?cs = "retained pixelMap"
  have res: "buildUniqueVectors pixelMap [] [] [] [] =
           Inr (shapes_of ?cs, colors_of ?cs, meshes_of ?cs, map (node_of ?cs) ?cs)"
  proof (cases "length ?cs < 2 ^ 31")
    case True
    then show ?thesis by (rule buildUniqueVectors_retained)
  next
    case False
    with assms have "buildUniqueVectors pixelMap [] [] [] [] \<noteq> Inl IndexOutOfRange" by simp
    then obtain shapes colors meshes nodes0 where
      b: "buildUniqueVectors pixelMap [] [] [] [] = Inr (shapes, colors, meshes, nodes0)"
      by (cases "buildUniqueVectors pixelMap [] [] [] []") (auto intro: fault.exhaust)
    show ?thesis using buildUniqueVectors_Inr(1-4) [OF b] b by simp
  qed
  note v = buildUniqueVectors_Inr [OF res]
  have inv: "indexed_by ?cs [] (indexing pixelMap)"
    unfolding indexing_def by (rule indexed_by_pixelLoop)
  have s: "indexes (uniqueShapes (indexing pixelMap)) (map shape_name ?cs) (shapes_of ?cs)"
    unfolding shapes_of_def using inv v(5)
    by (intro dict_of_indexes) (simp_all add: indexed_by_def shapes_of_def)
  have c: "indexes (uniqueColors (indexing pixelMap)) (map color_name ?cs) (colors_of ?cs)"
    unfolding colors_of_def using inv v(6)
    by (intro dict_of_indexes) (simp_all add: indexed_by_def colors_of_def)
  have m: "indexes (uniqueMeshes (indexing pixelMap)) (map (mesh_key ?cs) ?cs) (meshes_of ?cs)"
    unfolding meshes_of_def using inv v(7)
    by (intro dict_of_indexes) (simp_all add: indexed_by_def meshes_of_def)
  show ?thesis using res s c m pixelBody_keeps by blast
qed

theorem dictionary_indices_witness:
  "buildUniqueVectors
      [JArray [pixel ''cube'' ''A'' 1, pixel ''cube'' ''B'' 1, pixel ''cube'' ''A'' 1]] [] [] [] [] =
     Inr ([''cube''], [''A'', ''B''], [(0, 0), (0, 1)],
          [\<lparr>mesh = 0, depth = 1, row = 0, col = 0\<rparr>, \<lparr>mesh = 1, depth = 1, row = 0, col = 1\<rparr>,
           \<lparr>mesh = 0, depth = 1, row = 0, col = 2\<rparr>]) \<and>
   map_of (uniqueColors (indexing
      [JArray [pixel ''cube'' ''A'' 1, pixel ''cube'' ''B'' 1, pixel ''cube'' ''A'' 1]])) ''A'' =
     Some 0 \<and>
   map_of (uniqueColors (indexing
      [JArray [pixel ''cube'' ''A'' 1, pixel ''cube'' ''B'' 1, pixel ''cube'' ''A'' 1]])) ''B'' =
     Some 1 \<and>
   length (uniqueColors (indexing
      [JArray [pixel ''cube'' ''A'' 1, pixel ''cube'' ''B'' 1, pixel ''cube'' ''A'' 1]])) = 2"
proof -
  let ?pm = "[JArray [pixel ''cube'' ''A'' 1, pixel ''cube'' ''B'' 1, pixel ''cube'' ''A'' 1]]"
  have r: "length (retained ?pm) = 3" by code_simp
  have s: "shapes_of (retained ?pm) = [''cube'']" by code_simp
  have c: "colors_of (retained ?pm) = [''A'', ''B'']" by code_simp
  have m: "meshes_of (retained ?pm) = [(0, 0), (0, 1)]" by code_simp
  have n: "map (node_of (retained ?pm)) (retained ?pm) =
      [\<lparr>mesh = 0, depth = 1, row = 0, col = 0\<rparr>, \<lparr>mesh = 1, depth = 1, row = 0, col = 1\<rparr>,
       \<lparr>mesh = 0, depth = 1, row = 0, col = 2\<rparr>]"
    by code_simp
  have st: "map color_name (retained ?pm) = [''A'', ''B'', ''A'']" by code_simp
  have h: "length (retained ?pm) < 2 ^ 31 \<or> buildUniqueVectors ?pm [] [] [] [] \<noteq> Inl IndexOutOfRange"
    by (simp add: r)
  note t = dictionary_indices [OF h]
  from t [THEN conjunct1]
  have 1: "buildUniqueVectors ?pm [] [] [] [] =
     Inr ([''cube''], [''A'', ''B''], [(0, 0), (0, 1)],
          [\<lparr>mesh = 0, depth = 1, row = 0, col = 0\<rparr>, \<lparr>mesh = 1, depth = 1, row = 0, col = 1\<rparr>,
           \<lparr>mesh = 0, depth = 1, row = 0, col = 2\<rparr>])"
    by (simp only: s c m n)
  from t [THEN conjunct2, THEN conjunct2, THEN conjunct1]
  have ix: "indexes (uniqueColors (indexing ?pm)) [''A'', ''B'', ''A''] [''A'', ''B'']"
    by (simp only: st c)
  from ix have 2: "map_of (uniqueColors (indexing ?pm)) ''A'' = Some 0"
    and 3: "map_of (uniqueColors (indexing ?pm)) ''B'' = Some 1"
    and 4: "length (uniqueColors (indexing ?pm)) = 2"
    by (simp_all add: indexes_def)
  from 1 2 3 4 show ?thesis by simp
qed

text \<open>
  \<^bold>\<open>C3\<close>. In the document of a successful export, the node of the \<open>k\<close>-th retained cell
  \<open>c\<close>, which stands at row \<open>i\<close> and column \<open>j\<close> of the grid and whose depth is its \<^verbatim>\<open>depth\<close>
  value as \<^verbatim>\<open>toInt\<close> reads it, has the translation \<open>(i * 2 + 1, j * 2 + 1, 0)\<close> and the scale
  \<open>(1, 1, 2 * depth - 1)\<close>, computed in \<^verbatim>\<open>int\<close>. Where the results fit an \<^verbatim>\<open>int\<close> these are
  the numbers themselves: for rows and columns below \<open>2^30\<close> and a whole depth \<open>n\<close> with
  \<open>-2^30 < n \<le> 2^30\<close>.
\<close>

theorem node_transform:
  assumes "write' e d fileName data = Inr (Emit_exported f, (f', doc) # d')"
    and "k < length (retained (input_pixels data))"
    and "retained (input_pixels data) ! k = (i, j, c)"
  shows "jfield (jitem (jfield doc ''nodes'') k) ''translation'' =
           JArray [json_of_int (of_nat i * 2 + 1), json_of_int (of_nat j * 2 + 1), JDouble 0] \<and>
         jfield (jitem (jfield doc ''nodes'') k) ''scale'' =
           JArray [JDouble 1, JDouble 1, json_of_int (2 * toInt (cell_depth c) - 1)] \<and>
         (i < 2 ^ 30 \<and> j < 2 ^ 30 \<longrightarrow>
            jfield (jitem (jfield doc ''nodes'') k) ''translation'' =
              JArray [JDouble (of_nat (i * 2 + 1)), JDouble (of_nat (j * 2 + 1)), JDouble 0]) \<and>
         (\<forall>n. cell_depth c = JDouble (of_int n) \<and> - (2 ^ 30) < n \<and> n \<le> 2 ^ 30 \<longrightarrow>
            jfield (jitem (jfield doc ''nodes'') k) ''scale'' =
              JArray [JDouble 1, JDouble 1, JDouble (of_int (2 * n - 1))])"
proof -
  let ?cs = "retained (input_pixels data)"
  from exported_fields [OF assms(1)] obtain shapes colors meshes nodes0 where
    b: "buildUniqueVectors (input_pixels data) [] [] [] [] = Inr (shapes, colors, meshes, nodes0)"
    and nd: "jfield doc ''nodes'' = QJsonObject_value (insertNodes [] nodes0 (input_height data)) ''nodes''"
    by blast
  have n0: "nodes0 = map (node_of ?cs) ?cs" by (rule buildUniqueVectors_Inr(4) [OF b])
  have k: "k < length nodes0" using assms(2) by (simp add: n0)
  note nk = nth_retained_node [OF assms(2) assms(3)]
  have t: "jfield (jitem (jfield doc ''nodes'') k) ''translation'' =
           JArray [json_of_int (of_nat i * 2 + 1), json_of_int (of_nat j * 2 + 1), JDouble 0]"
    using nodes_item(2) [OF k, of "[]" "input_height data"] nk by (simp add: nd n0)
  have s: "jfield (jitem (jfield doc ''nodes'') k) ''scale'' =
           JArray [JDouble 1, JDouble 1, json_of_int (2 * toInt (cell_depth c) - 1)]"
    using nodes_item(3) [OF k, of "[]" "input_height data"] nk by (simp add: nd n0)
  have ti: "jfield (jitem (jfield doc ''nodes'') k) ''translation'' =
              JArray [JDouble (of_nat (i * 2 + 1)), JDouble (of_nat (j * 2 + 1)), JDouble 0]"
    if "i < 2 ^ 30 \<and> j < 2 ^ 30"
  proof -
    have "sint (of_nat i * 2 + 1 :: cint) = 2 * int i + 1" "sint (of_nat j * 2 + 1 :: cint) = 2 * int j + 1"
      using that by (simp_all add: sint_twice_plus_one)
    then show ?thesis by (simp add: t json_of_int_def)
  qed
  have si: "jfield (jitem (jfield doc ''nodes'') k) ''scale'' =
              JArray [JDouble 1, JDouble 1, JDouble (of_int (2 * n - 1))]"
    if "cell_depth c = JDouble (of_int n) \<and> - (2 ^ 30) < n \<and> n \<le> 2 ^ 30" for n
  proof -
    have d: "toInt (cell_depth c) = of_int n" using that by (simp add: toInt_whole)
    have sn: "sint (of_int n :: cint) = n" using that by (intro sint_of_int_small) simp_all
    have "sint (2 * (of_int n :: cint) - 1) = 2 * n - 1"
      using sint_twice_minus_one [of "of_int n :: cint"] that by (simp add: sn)
    then show ?thesis by (simp add: s d json_of_int_def)
  qed
  show ?thesis using t s ti si by blast
qed

theorem node_transform_witness:
  "jfield (jitem (jfield (exported_doc (write' cube_env [] example_url
      (example_input ''1.0'' 4 4
         [JArray [], JArray [],
          JArray [empty_pixel, empty_pixel, empty_pixel, pixel ''cube'' ''red'' 4]])))
      ''nodes'') 0) ''translation'' = JArray [JDouble 5, JDouble 7, JDouble 0] \<and>
   jfield (jitem (jfield (exported_doc (write' cube_env [] example_url
      (example_input ''1.0'' 4 4
         [JArray [], JArray [],
          JArray [empty_pixel, empty_pixel, empty_pixel, pixel ''cube'' ''red'' 4]])))
      ''nodes'') 0) ''scale'' = JArray [JDouble 1, JDouble 1, JDouble 7]"
proof -
  let ?data = "example_input ''1.0'' 4 4
         [JArray [], JArray [],
          JArray [empty_pixel, empty_pixel, empty_pixel, pixel ''cube'' ''red'' 4]]"
  let ?doc = "exported_doc (write' cube_env [] example_url ?data)"
  have w: "write' cube_env [] example_url ?data =
           Inr (Emit_exported ''out.gltf'', (''out.gltf'', ?doc) # [])"
    by code_simp
  have r: "retained (input_pixels ?data) = [(2, 3, pixel ''cube'' ''red'' 4)]"
    by code_simp
  have c: "cell_depth (pixel ''cube'' ''red'' 4) = JDouble (of_int 4)"
    by code_simp
  have k: "0 < length (retained (input_pixels ?data))" by (simp add: r)
  have n: "retained (input_pixels ?data) ! 0 = (2, 3, pixel ''cube'' ''red'' 4)" by (simp add: r)
  note t = node_transform [OF w k n]
  from t [THEN conjunct2, THEN conjunct2, THEN conjunct1]
  have "jfield (jitem (jfield ?doc ''nodes'') 0) ''translation'' =
      JArray [JDouble (of_nat (2 * 2 + 1)), JDouble (of_nat (3 * 2 + 1)), JDouble 0]"
    by simp
  moreover from t [THEN conjunct2, THEN conjunct2, THEN conjunct2, THEN spec, of 4] c
  have "jfield (jitem (jfield ?doc ''nodes'') 0) ''scale'' =
      JArray [JDouble 1, JDouble 1, JDouble (of_int (2 * 4 - 1))]"
    by simp
  ultimately show ?thesis by simp
qed

text \<open>
  \<^bold>\<open>C4\<close>, as the code has it. In the document of a successful export of a grid with
  \<open>numCells\<close> retained cells (fewer than \<open>2^31\<close>), the node array has \<open>numCells + 1\<close> entries;
  the last one is the root node, with the children \<open>0, \<dots>, numCells - 1\<close> in order, the
  translation \<open>(0, 2 * height, 0)\<close> and the rotation \<open>(0, 0, -r, r)\<close> for the constant \<open>r\<close>; and
  \<^verbatim>\<open>scenes\<close> is one scene whose node list is \<open>[numCells]\<close>. Here \<open>height\<close> is the \<^verbatim>\<open>height\<close>
  field of the input as \<^verbatim>\<open>toInt\<close> reads it, doubled in \<^verbatim>\<open>int\<close>: the number \<open>2 * n\<close> for a whole
  \<open>n\<close> with \<open>-2^30 \<le> n < 2^30\<close>. The number of rows of \<^verbatim>\<open>pixels\<close> plays no part.
\<close>

theorem root_node:
  assumes "write' e d fileName data = Inr (Emit_exported f, (f', doc) # d')"
    and "length (retained (input_pixels data)) = numCells" and "numCells < 2 ^ 31"
  shows "jlength (jfield doc ''nodes'') = numCells + 1 \<and>
         jfield (jitem (jfield doc ''nodes'') numCells) ''children'' =
           JArray (map (\<lambda>i. JDouble (of_nat i)) [0..<numCells]) \<and>
         jfield (jitem (jfield doc ''nodes'') numCells) ''translation'' =
           JArray [JDouble 0, json_of_int (2 * input_height data), JDouble 0] \<and>
         jfield (jitem (jfield doc ''nodes'') numCells) ''rotation'' =
           JArray [JDouble 0, JDouble 0, JDouble (- rotation_component),
                   JDouble rotation_component] \<and>
         jfield doc ''scenes'' = JArray [JObject [(''nodes'', JArray [JDouble (of_nat numCells)])]] \<and>
         (\<forall>n. QJsonObject_value data ''height'' = JDouble (of_int n) \<and>
              - (2 ^ 30) \<le> n \<and> n < 2 ^ 30 \<longrightarrow>
              jfield (jitem (jfield doc ''nodes'') numCells) ''translation'' =
                JArray [JDouble 0, JDouble (of_int (2 * n)), JDouble 0])"
proof -
  let ?cs = "retained (input_pixels data)"
  from exported_fields [OF assms(1)] obtain shapes colors meshes nodes0 where
    b: "buildUniqueVectors (input_pixels data) [] [] [] [] = Inr (shapes, colors, meshes, nodes0)"
    and nd: "jfield doc ''nodes'' = QJsonObject_value (insertNodes [] nodes0 (input_height data)) ''nodes''"
    and sc: "jfield doc ''scenes'' =
             JArray [JObject [(''nodes'', JArray [json_of_int (QVector_size nodes0)])]]"
    by blast
  have len: "length nodes0 = numCells"
    using buildUniqueVectors_Inr(4) [OF b] assms(2) by simp
  have l: "jlength (jfield doc ''nodes'') = numCells + 1"
    by (simp add: nd nodes_length len)
  have c: "jfield (jitem (jfield doc ''nodes'') numCells) ''children'' =
           JArray (map (\<lambda>i. JDouble (of_nat i)) [0..<numCells])"
    using nodes_root(1) [of "[]" nodes0 "input_height data"] children_numbers [OF assms(3)]
    by (simp add: nd len)
  have t: "jfield (jitem (jfield doc ''nodes'') numCells) ''translation'' =
           JArray [JDouble 0, json_of_int (2 * input_height data), JDouble 0]"
    using nodes_root(2) [of "[]" nodes0 "input_height data"] by (simp add: nd len)
  have r: "jfield (jitem (jfield doc ''nodes'') numCells) ''rotation'' =
           JArray [JDouble 0, JDouble 0, JDouble (- rotation_component), JDouble rotation_component]"
    using nodes_root(3) [of "[]" nodes0 "input_height data"] by (simp add: nd len)
  have s: "jfield doc ''scenes'' = JArray [JObject [(''nodes'', JArray [JDouble (of_nat numCells)])]]"
    using assms(3) by (simp add: sc QVector_size_def len json_of_int_of_nat)
  have ti: "jfield (jitem (jfield doc ''nodes'') numCells) ''translation'' =
              JArray [JDouble 0, JDouble (of_int (2 * n)), JDouble 0]"
    if "QJsonObject_value data ''height'' = JDouble (of_int n) \<and> - (2 ^ 30) \<le> n \<and> n < 2 ^ 30" for n
  proof -
    have h: "input_height data = of_int n" using that by (simp add: input_height_def toInt_whole)
    have sn: "sint (of_int n :: cint) = n" using that by (intro sint_of_int_small) simp_all
    have "sint (2 * (of_int n :: cint)) = 2 * n"
      using sint_twice [of "of_int n :: cint"] that by (simp add: sn)
    then show ?thesis by (simp add: t h json_of_int_def)
  qed
  show ?thesis using l c t r s ti by blast
qed

theorem root_node_witness:
  "jlength (jfield (exported_doc (write' cube_env [] example_url
      (example_input ''1.0'' 2 2
         [JArray [pixel ''cube'' ''red'' 1, empty_pixel],
          JArray [pixel ''cube'' ''blue'' 2, pixel ''cube'' ''red'' 3]]))) ''nodes'') = 4 \<and>
   jfield (jitem (jfield (exported_doc (write' cube_env [] example_url
      (example_input ''1.0'' 2 2
         [JArray [pixel ''cube'' ''red'' 1, empty_pixel],
          JArray [pixel ''cube'' ''blue'' 2, pixel ''cube'' ''red'' 3]]))) ''nodes'') 3) ''children'' =
     JArray [JDouble 0, JDouble 1, JDouble 2] \<and>
   jfield (jitem (jfield (exported_doc (write' cube_env [] example_url
      (example_input ''1.0'' 2 2
         [JArray [pixel ''cube'' ''red'' 1, empty_pixel],
          JArray [pixel ''cube'' ''blue'' 2, pixel ''cube'' ''red'' 3]]))) ''nodes'') 3) ''translation'' =
     JArray [JDouble 0, JDouble 4, JDouble 0] \<and>
   jfield (exported_doc (write' cube_env [] example_url
      (example_input ''1.0'' 2 2
         [JArray [pixel ''cube'' ''red'' 1, empty_pixel],
          JArray [pixel ''cube'' ''blue'' 2, pixel ''cube'' ''red'' 3]]))) ''scenes'' =
     JArray [JObject [(''nodes'', JArray [JDouble 3])]]"
proof -
  let ?data = "example_input ''1.0'' 2 2
         [JArray [pixel ''cube'' ''red'' 1, empty_pixel],
          JArray [pixel ''cube'' ''blue'' 2, pixel ''cube'' ''red'' 3]]"
  let ?doc = "exported_doc (write' cube_env [] example_url ?data)"
  have w: "write' cube_env [] example_url ?data =
           Inr (Emit_exported ''out.gltf'', (''out.gltf'', ?doc) # [])"
    by code_simp
  have r: "length (retained (input_pixels ?data)) = 3" by code_simp
  have h: "QJsonObject_value ?data ''height'' = JDouble (of_int 2)" by code_simp
  have up: "[0..<3] = [0, 1, 2]" by (simp add: upt_rec)
  note t = root_node [OF w r]
  have b: "(3::nat) < 2 ^ 31" by simp
  from t [OF b, THEN conjunct1]
  have 1: "jlength (jfield ?doc ''nodes'') = 4" by simp
  from t [OF b, THEN conjunct2, THEN conjunct1]
  have 2: "jfield (jitem (jfield ?doc ''nodes'') 3) ''children'' = JArray [JDouble 0, JDouble 1, JDouble 2]"
    by (simp add: up)
  from t [OF b, THEN conjunct2, THEN conjunct2, THEN conjunct2, THEN conjunct2, THEN conjunct1]
  have 3: "jfield ?doc ''scenes'' = JArray [JObject [(''nodes'', JArray [JDouble 3])]]" by simp
  from t [OF b, THEN conjunct2, THEN conjunct2, THEN conjunct2, THEN conjunct2, THEN conjunct2,
      THEN spec, of 2] h
  have 4: "jfield (jitem (jfield ?doc ''nodes'') 3) ''translation'' = JArray [JDouble 0, JDouble 4, JDouble 0]"
    by simp
  from 1 2 3 4 show ?thesis by simp
qed

text \<open>An input that declares the height 3 and holds one row: the export succeeds and the root
  node is translated by \<open>(0, 6, 0)\<close>, twice the declared height and not twice the number of
  rows.\<close>

theorem root_node_counterexample:
  "write' cube_env [] example_url (example_input ''1.0'' 3 3 [JArray [pixel ''cube'' ''red'' 1]]) =
     Inr (Emit_exported ''out.gltf'',
          [(''out.gltf'', exported_doc (write' cube_env [] example_url
              (example_input ''1.0'' 3 3 [JArray [pixel ''cube'' ''red'' 1]])))]) \<and>
   length (input_pixels (example_input ''1.0'' 3 3 [JArray [pixel ''cube'' ''red'' 1]])) = 1 \<and>
   jfield (jitem (jfield (exported_doc (write' cube_env [] example_url
      (example_input ''1.0'' 3 3 [JArray [pixel ''cube'' ''red'' 1]]))) ''nodes'') 1) ''translation'' =
     JArray [JDouble 0, JDouble 6, JDouble 0]"
  by code_simp

text \<open>
  \<^bold>\<open>C5\<close>. In the document of a successful export, the mesh at index \<open>m\<close> of the mesh array,
  built from the entry \<open>(shapeIndex, colorIndex)\<close> at index \<open>m\<close> of the mesh vector, has one
  primitive, with the attributes \<^verbatim>\<open>POSITION\<close> \<open>= shapeIndex * 3\<close> and \<^verbatim>\<open>NORMAL\<close>
  \<open>= shapeIndex * 3 + 1\<close>, \<^verbatim>\<open>indices\<close> \<open>= shapeIndex * 3 + 2\<close> and \<^verbatim>\<open>material\<close> \<open>= colorIndex\<close>
  (in \<^verbatim>\<open>int\<close>; the numbers themselves for a shape index from 0 to below \<open>2^29\<close>).
\<close>

theorem mesh_primitive:
  assumes "write' e d fileName data = Inr (Emit_exported f, (f', doc) # d')"
    and "buildUniqueVectors (input_pixels data) [] [] [] [] = Inr (shapes, colors, meshes, nodes0)"
    and "m < length meshes" and "meshes ! m = (shapeIndex, colorIndex)"
  shows "jlength (jfield doc ''meshes'') = length meshes \<and>
         jlength (jfield (jitem (jfield doc ''meshes'') m) ''primitives'') = 1 \<and>
         jfield (jfield (jitem (jfield (jitem (jfield doc ''meshes'') m) ''primitives'') 0)
            ''attributes'') ''POSITION'' = json_of_int (shapeIndex * 3) \<and>
         jfield (jfield (jitem (jfield (jitem (jfield doc ''meshes'') m) ''primitives'') 0)
            ''attributes'') ''NORMAL'' = json_of_int (shapeIndex * 3 + 1) \<and>
         jfield (jitem (jfield (jitem (jfield doc ''meshes'') m) ''primitives'') 0) ''indices'' =
            json_of_int (shapeIndex * 3 + 2) \<and>
         jfield (jitem (jfield (jitem (jfield doc ''meshes'') m) ''primitives'') 0) ''material'' =
            JDouble (of_int (sint colorIndex)) \<and>
         (0 \<le> sint shapeIndex \<and> sint shapeIndex < 2 ^ 29 \<longrightarrow>
            json_of_int (shapeIndex * 3) = JDouble (of_int (3 * sint shapeIndex)) \<and>
            json_of_int (shapeIndex * 3 + 1) = JDouble (of_int (3 * sint shapeIndex + 1)) \<and>
            json_of_int (shapeIndex * 3 + 2) = JDouble (of_int (3 * sint shapeIndex + 2)))"
proof -
  from exported_fields [OF assms(1)] assms(2)
  have ms: "jfield doc ''meshes'' = QJsonObject_value (insertMeshes [] meshes) ''meshes''"
    by auto
  have ex: "json_of_int (shapeIndex * 3) = JDouble (of_int (3 * sint shapeIndex)) \<and>
            json_of_int (shapeIndex * 3 + 1) = JDouble (of_int (3 * sint shapeIndex + 1)) \<and>
            json_of_int (shapeIndex * 3 + 2) = JDouble (of_int (3 * sint shapeIndex + 2))"
    if "0 \<le> sint shapeIndex \<and> sint shapeIndex < 2 ^ 29"
    using sint_times_three [of shapeIndex] that by (simp add: json_of_int_def)
  show ?thesis
    using meshes_item [OF assms(3), of "[]"] assms(4) ex
    by (simp add: ms meshes_length json_of_int_def)
qed

theorem mesh_primitive_witness:
  "jfield (jfield (jitem (jfield (jitem (jfield (exported_doc (write' cube_env [] example_url
      (example_input ''1.0'' 1 1 [JArray [pixel ''cube'' ''red'' 1, pixel ''cube'' ''blue'' 1]])))
      ''meshes'') 1) ''primitives'') 0) ''attributes'') ''POSITION'' = JDouble 0 \<and>
   jfield (jfield (jitem (jfield (jitem (jfield (exported_doc (write' cube_env [] example_url
      (example_input ''1.0'' 1 1 [JArray [pixel ''cube'' ''red'' 1, pixel ''cube'' ''blue'' 1]])))
      ''meshes'') 1) ''primitives'') 0) ''attributes'') ''NORMAL'' = JDouble 1 \<and>
   jfield (jitem (jfield (jitem (jfield (exported_doc (write' cube_env [] example_url
      (example_input ''1.0'' 1 1 [JArray [pixel ''cube'' ''red'' 1, pixel ''cube'' ''blue'' 1]])))
      ''meshes'') 1) ''primitives'') 0) ''indices'' = JDouble 2 \<and>
   jfield (jitem (jfield (jitem (jfield (exported_doc (write' cube_env [] example_url
      (example_input ''1.0'' 1 1 [JArray [pixel ''cube'' ''red'' 1, pixel ''cube'' ''blue'' 1]])))
      ''meshes'') 1) ''primitives'') 0) ''material'' = JDouble 1"
proof -
  let ?data = "example_input ''1.0'' 1 1 [JArray [pixel ''cube'' ''red'' 1, pixel ''cube'' ''blue'' 1]]"
  let ?doc = "exported_doc (write' cube_env [] example_url ?data)"
  have w: "write' cube_env [] example_url ?data =
           Inr (Emit_exported ''out.gltf'', (''out.gltf'', ?doc) # [])"
    by code_simp
  have b: "buildUniqueVectors (input_pixels ?data) [] [] [] [] =
      Inr ([''cube''], [''red'', ''blue''], [(0, 0), (0, 1)],
           [\<lparr>mesh = 0, depth = 1, row = 0, col = 0\<rparr>, \<lparr>mesh = 1, depth = 1, row = 0, col = 1\<rparr>])"
    by code_simp
  have m: "(1::nat) < length [(0, 0), (0, 1 :: cint)]" by simp
  have n: "[(0, 0), (0, 1)] ! 1 = (0 :: cint, 1 :: cint)" by simp
  from mesh_primitive [OF w b m n] show ?thesis by (simp add: json_of_int_def)
qed

text \<open>
  \<^bold>\<open>C6\<close>. In the document of a successful export, the \<^verbatim>\<open>mesh\<close> of every cell node is a number
  below the length of the mesh array, and the \<^verbatim>\<open>material\<close> of every mesh is a number below
  the length of the material array.
\<close>

theorem cross_references:
  assumes "write' e d fileName data = Inr (Emit_exported f, (f', doc) # d')"
  shows "(\<forall>k < length (retained (input_pixels data)).
            \<exists>x. jfield (jitem (jfield doc ''nodes'') k) ''mesh'' = JDouble (of_nat x) \<and>
                x < jlength (jfield doc ''meshes'')) \<and>
         (\<forall>m < jlength (jfield doc ''meshes'').
            \<exists>x. jfield (jitem (jfield (jitem (jfield doc ''meshes'') m) ''primitives'') 0)
                  ''material'' = JDouble (of_nat x) \<and>
                x < jlength (jfield doc ''materials''))"
proof -
  let ?cs = "retained (input_pixels data)"
  from exported_fields [OF assms] obtain shapes colors meshes nodes0 where
    b: "buildUniqueVectors (input_pixels data) [] [] [] [] = Inr (shapes, colors, meshes, nodes0)"
    and nd: "jfield doc ''nodes'' = QJsonObject_value (insertNodes [] nodes0 (input_height data)) ''nodes''"
    and ms: "jfield doc ''meshes'' = QJsonObject_value (insertMeshes [] meshes) ''meshes''"
    and mt: "jfield doc ''materials'' =
             JArray (materialsFromColors e colors (metallicFactor e) (roughnessFactor e))"
    by blast
  note v = buildUniqueVectors_Inr [OF b]
  have lm: "jlength (jfield doc ''meshes'') = length (meshes_of ?cs)"
    by (simp add: ms meshes_length v(3))
  have lc: "jlength (jfield doc ''materials'') = length (colors_of ?cs)"
    by (simp add: mt jlength_JArray materials_length v(2))
  have bm: "length (meshes_of ?cs) < 2 ^ 31" using v(3) v(7) by simp
  have bc: "length (colors_of ?cs) < 2 ^ 31" using v(2) v(6) by simp
  show ?thesis
  proof (intro conjI allI impI)
    fix k assume k: "k < length ?cs"
    define x where "x = index_of (meshes_of ?cs) (mesh_key ?cs (?cs ! k))"
    have x: "x < length (meshes_of ?cs)"
      unfolding x_def using k by (intro index_of_less mesh_key_in_meshes) simp
    have "mesh (nodes0 ! k) = of_nat x" using k by (simp add: v(4) node_of_def x_def)
    moreover have "json_of_int (of_nat x) = JDouble (of_nat x)"
      using x bm by (intro json_of_int_of_nat) simp
    moreover have "k < length nodes0" using k by (simp add: v(4))
    ultimately have "jfield (jitem (jfield doc ''nodes'') k) ''mesh'' = JDouble (of_nat x)"
      using nodes_item(1) [of k nodes0 "[]" "input_height data"] by (simp add: nd)
    with x show "\<exists>x. jfield (jitem (jfield doc ''nodes'') k) ''mesh'' = JDouble (of_nat x) \<and>
        x < jlength (jfield doc ''meshes'')"
      by (auto simp: lm)
  next
    fix m assume "m < jlength (jfield doc ''meshes'')"
    then have m: "m < length (meshes_of ?cs)" by (simp add: lm)
    from meshes_of_entry [OF m] obtain c where c: "c \<in> set ?cs"
      and mk: "meshes_of ?cs ! m = mesh_key ?cs c" by blast
    define x where "x = index_of (colors_of ?cs) (color_name c)"
    have x: "x < length (colors_of ?cs)"
      unfolding x_def using c by (intro index_of_less color_in_colors)
    have "snd (meshes ! m) = of_nat x" by (simp add: v(3) mk mesh_key_def x_def)
    moreover have "json_of_int (of_nat x) = JDouble (of_nat x)"
      using x bc by (intro json_of_int_of_nat) simp
    moreover have "m < length meshes" using m by (simp add: v(3))
    ultimately have "jfield (jitem (jfield (jitem (jfield doc ''meshes'') m) ''primitives'') 0)
        ''material'' = JDouble (of_nat x)"
      using meshes_item(5) [of m meshes "[]"] by (simp add: ms)
    with x show "\<exists>x. jfield (jitem (jfield (jitem (jfield doc ''meshes'') m) ''primitives'') 0)
          ''material'' = JDouble (of_nat x) \<and> x < jlength (jfield doc ''materials'')"
      by (auto simp: lc)
  qed
qed

theorem cross_references_witness:
  "jlength (jfield (exported_doc (write' cube_env [] example_url
      (example_input ''1.0'' 1 1
         [JArray [pixel ''cube'' ''red'' 1, pixel ''cube'' ''blue'' 1, pixel ''cube'' ''red'' 2]])))
      ''meshes'') = 2 \<and>
   jlength (jfield (exported_doc (write' cube_env [] example_url
      (example_input ''1.0'' 1 1
         [JArray [pixel ''cube'' ''red'' 1, pixel ''cube'' ''blue'' 1, pixel ''cube'' ''red'' 2]])))
      ''materials'') = 2 \<and>
   (\<exists>x. jfield (jitem (jfield (exported_doc (write' cube_env [] example_url
      (example_input ''1.0'' 1 1
         [JArray [pixel ''cube'' ''red'' 1, pixel ''cube'' ''blue'' 1, pixel ''cube'' ''red'' 2]])))
      ''nodes'') 1) ''mesh'' = JDouble (of_nat x) \<and> x < 2) \<and>
   (\<exists>x. jfield (jitem (jfield (jitem (jfield (exported_doc (write' cube_env [] example_url
      (example_input ''1.0'' 1 1
         [JArray [pixel ''cube'' ''red'' 1, pixel ''cube'' ''blue'' 1, pixel ''cube'' ''red'' 2]])))
      ''meshes'') 1) ''primitives'') 0) ''material'' = JDouble (of_nat x) \<and> x < 2)"
proof -
  let ?data = "example_input ''1.0'' 1 1
         [JArray [pixel ''cube'' ''red'' 1, pixel ''cube'' ''blue'' 1, pixel ''cube'' ''red'' 2]]"
  let ?doc = "exported_doc (write' cube_env [] example_url ?data)"
  have w: "write' cube_env [] example_url ?data =
           Inr (Emit_exported ''out.gltf'', (''out.gltf'', ?doc) # [])"
    by code_simp
  have r: "length (retained (input_pixels ?data)) = 3" by code_simp
  have lm: "jlength (jfield ?doc ''meshes'') = 2" by code_simp
  have lc: "jlength (jfield ?doc ''materials'') = 2" by code_simp
  note t = cross_references [OF w]
  from t [THEN conjunct1, rule_format, of 1]
  have 1: "\<exists>x. jfield (jitem (jfield ?doc ''nodes'') 1) ''mesh'' = JDouble (of_nat x) \<and> x < 2"
    by (simp add: r lm)
  from t [THEN conjunct2, rule_format, of 1]
  have 2: "\<exists>x. jfield (jitem (jfield (jitem (jfield ?doc ''meshes'') 1) ''primitives'') 0)
      ''material'' = JDouble (of_nat x) \<and> x < 2"
    by (simp add: lm lc)
  from lm lc 1 2 show ?thesis by blast
qed

text \<open>
  \<^bold>\<open>C7\<close>. When the \<^verbatim>\<open>version\<close> of the input is not the string \<^verbatim>\<open>1.0\<close>, \<^verbatim>\<open>write\<close> emits
  the error signal with the local file name of the destination and the version message and
  stops: nothing is assembled and the files are as they were.
\<close>

theorem write_rejects_version:
  "input_version data \<noteq> ''1.0'' \<Longrightarrow>
   write' e d fileName data =
     Inr (Emit_error (toLocalFile fileName)
            (''Invalid version number [1.0 != '' @ input_version data @ '']''), d)"
proof -
  assume v: "input_version data \<noteq> ''1.0''"
  have t: "QJsonObject_take data ''version'' =
      (QJsonObject_value data ''version'', QJsonObject_remove data ''version'')"
    by (simp add: QJsonObject_take_def)
  have "toString (QJsonObject_value data ''version'') \<noteq> ''1.0''"
    using v by (simp add: input_version_def)
  then show ?thesis
    unfolding write'_def t by (simp add: input_version_def Let_def)
qed

theorem write_rejects_version_witness:
  "input_version (example_input ''0.9'' 2 2 []) \<noteq> ''1.0'' \<and>
   write' (example_env Absent) [] example_url (example_input ''0.9'' 2 2 []) =
     Inr (Emit_error ''out.gltf'' ''Invalid version number [1.0 != 0.9]'', [])"
proof -
  have v: "input_version (example_input ''0.9'' 2 2 []) = ''0.9''" by code_simp
  have h: "input_version (example_input ''0.9'' 2 2 []) \<noteq> ''1.0''" by (simp add: v)
  show ?thesis
    using h write_rejects_version [OF h, of "example_env Absent" "[]" example_url]
    by (simp add: v example_url_def)
qed

text \<open>
  \<^bold>\<open>C8\<close>. With the version accepted, unequal \<^verbatim>\<open>width\<close> and \<^verbatim>\<open>height\<close> (as \<^verbatim>\<open>toInt\<close> reads
  them) make \<^verbatim>\<open>write\<close> emit the error \<^verbatim>\<open>invalid size\<close> and stop with the files as they were;
  with equal ones the export goes on: it ends in a fault of \<^verbatim>\<open>shapes[0]\<close>, in one of the two
  later errors or in the exported signal, never in \<^verbatim>\<open>invalid size\<close>.
\<close>

theorem write_checks_size:
  assumes "input_version data = ''1.0''"
  shows "(input_width data \<noteq> input_height data \<longrightarrow>
            write' e d fileName data = Inr (Emit_error (toLocalFile fileName) ''invalid size'', d)) \<and>
         (input_width data = input_height data \<longrightarrow>
            (write' e d fileName data = Inl IndexOutOfRange \<or>
             write' e d fileName data =
               Inr (Emit_error (toLocalFile fileName) ''Can't find or open shape files'', d) \<or>
             write' e d fileName data =
               Inr (Emit_error (toLocalFile fileName) ''Can't write to file!'', d) \<or>
             (\<exists>doc. write' e d fileName data =
               Inr (Emit_exported (toLocalFile fileName), (toLocalFile fileName, doc) # d))) \<and>
            (\<forall>d'. write' e d fileName data \<noteq>
               Inr (Emit_error (toLocalFile fileName) ''invalid size'', d')))"
proof (intro conjI impI)
  assume "input_width data \<noteq> input_height data"
  then show "write' e d fileName data = Inr (Emit_error (toLocalFile fileName) ''invalid size'', d)"
    using assms by (rule write'_invalid_size [rotated])
next
  assume eq: "input_width data = input_height data"
  note w = write'_valid [OF assms eq, of e d fileName]
  show "write' e d fileName data = Inl IndexOutOfRange \<or>
        write' e d fileName data =
          Inr (Emit_error (toLocalFile fileName) ''Can't find or open shape files'', d) \<or>
        write' e d fileName data =
          Inr (Emit_error (toLocalFile fileName) ''Can't write to file!'', d) \<or>
        (\<exists>doc. write' e d fileName data =
          Inr (Emit_exported (toLocalFile fileName), (toLocalFile fileName, doc) # d))"
    unfolding w by (auto split: sum.splits prod.splits intro: fault.exhaust)
  show "\<forall>d'. write' e d fileName data \<noteq>
          Inr (Emit_error (toLocalFile fileName) ''invalid size'', d')"
    unfolding w by (auto split: sum.splits prod.splits)
qed

theorem write_checks_size_witness:
  "input_version (example_input ''1.0'' 4 5 []) = ''1.0'' \<and>
   input_width (example_input ''1.0'' 4 5 []) = 4 \<and>
   input_height (example_input ''1.0'' 4 5 []) = 5 \<and>
   write' (example_env Absent) [] example_url (example_input ''1.0'' 4 5 []) =
     Inr (Emit_error ''out.gltf'' ''invalid size'', []) \<and>
   input_width (example_input ''1.0'' 1 1 [JArray [pixel ''cube'' ''red'' 1]]) =
     input_height (example_input ''1.0'' 1 1 [JArray [pixel ''cube'' ''red'' 1]]) \<and>
   write' cube_env [] example_url (example_input ''1.0'' 1 1 [JArray [pixel ''cube'' ''red'' 1]]) \<noteq>
     Inr (Emit_error ''out.gltf'' ''invalid size'', [])"
proof -
  let ?data = "example_input ''1.0'' 1 1 [JArray [pixel ''cube'' ''red'' 1]]"
  have v: "input_version (example_input ''1.0'' 4 5 []) = ''1.0''" by code_simp
  have w: "input_width (example_input ''1.0'' 4 5 []) = 4" by code_simp
  have h: "input_height (example_input ''1.0'' 4 5 []) = 5" by code_simp
  have v': "input_version ?data = ''1.0''" by code_simp
  have s': "input_width ?data = input_height ?data" by code_simp
  have u: "toLocalFile example_url = ''out.gltf''" by code_simp
  from write_checks_size [OF v, of "example_env Absent" "[]" example_url, THEN conjunct1]
  have 1: "write' (example_env Absent) [] example_url (example_input ''1.0'' 4 5 []) =
     Inr (Emit_error ''out.gltf'' ''invalid size'', [])"
    by (simp add: w h u)
  from write_checks_size [OF v', of cube_env "[]" example_url, THEN conjunct2, rule_format, OF s',
      THEN conjunct2, rule_format, of "[]"]
  have 2: "write' cube_env [] example_url ?data \<noteq> Inr (Emit_error ''out.gltf'' ''invalid size'', [])"
    by (simp add: u)
  from v w h 1 s' 2 show ?thesis by simp
qed

text \<open>
  \<^bold>\<open>C9\<close>, as the code has it. \<^verbatim>\<open>insertShapeData\<close> fails, returning \<^verbatim>\<open>false\<close> and the document as
  it was, when the bundle of the first shape name does not exist or cannot be opened; the
  export then reports the one error \<^verbatim>\<open>Can't find or open shape files\<close> with the destination and
  leaves the files as they were, whichever of the two it was. A bundle that opens never
  fails: the \<^verbatim>\<open>buffers\<close>, \<^verbatim>\<open>bufferViews\<close> and \<^verbatim>\<open>accessors\<close> of the document become those of the
  parsed bundle, and are absent when the bundle does not parse.
\<close>

theorem template_resolution:
  "(shapeFile e (shape_path shape0) = Absent \<or> shapeFile e (shape_path shape0) = Unopenable \<longrightarrow>
      insertShapeData e exportModel (shape0 # rest) = Inr (False, exportModel) \<and>
      (\<forall>d fileName data x xs.
         input_version data = ''1.0'' \<and> input_width data = input_height data \<and>
         retained (input_pixels data) = x # xs \<and> length (x # xs) < 2 ^ 31 \<and>
         shape_name x = shape0 \<longrightarrow>
         write' e d fileName data =
           Inr (Emit_error (toLocalFile fileName) ''Can't find or open shape files'', d))) \<and>
   (\<forall>parsed. shapeFile e (shape_path shape0) = Readable parsed \<longrightarrow>
      (\<exists>exportModel'.
         insertShapeData e exportModel (shape0 # rest) = Inr (True, exportModel') \<and>
         QJsonObject_value exportModel' ''buffers'' =
           QJsonObject_value (document_object parsed) ''buffers'' \<and>
         QJsonObject_value exportModel' ''bufferViews'' =
           QJsonObject_value (document_object parsed) ''bufferViews'' \<and>
         QJsonObject_value exportModel' ''accessors'' =
           QJsonObject_value (document_object parsed) ''accessors''))"
proof (intro conjI allI impI)
  assume a: "shapeFile e (shape_path shape0) = Absent \<or> shapeFile e (shape_path shape0) = Unopenable"
  then show "insertShapeData e exportModel (shape0 # rest) = Inr (False, exportModel)"
    by (auto simp: insertShapeData_Cons)
  fix d fileName data x xs
  assume h: "input_version data = ''1.0'' \<and> input_width data = input_height data \<and>
         retained (input_pixels data) = x # xs \<and> length (x # xs) < 2 ^ 31 \<and> shape_name x = shape0"
  then have v: "input_version data = ''1.0''" and s: "input_width data = input_height data"
    and bound: "length (retained (input_pixels data)) < 2 ^ 31"
    by simp_all
  from shapes_of_Cons [of x xs] obtain rest' where r: "shapes_of (x # xs) = shape0 # rest'"
    using h by auto
  have b: "buildUniqueVectors (input_pixels data) [] [] [] [] =
      Inr (shape0 # rest', colors_of (x # xs), meshes_of (x # xs), map (node_of (x # xs)) (x # xs))"
    using buildUniqueVectors_retained [OF bound] h by (simp add: r)
  show "write' e d fileName data =
      Inr (Emit_error (toLocalFile fileName) ''Can't find or open shape files'', d)"
    using a by (auto simp: write'_valid [OF v s] b insertShapeData_Cons)
next
  fix parsed
  assume "shapeFile e (shape_path shape0) = Readable parsed"
  then show "\<exists>exportModel'.
         insertShapeData e exportModel (shape0 # rest) = Inr (True, exportModel') \<and>
         QJsonObject_value exportModel' ''buffers'' =
           QJsonObject_value (document_object parsed) ''buffers'' \<and>
         QJsonObject_value exportModel' ''bufferViews'' =
           QJsonObject_value (document_object parsed) ''bufferViews'' \<and>
         QJsonObject_value exportModel' ''accessors'' =
           QJsonObject_value (document_object parsed) ''accessors''"
    by (simp add: insertShapeData_Cons value_insert)
qed

theorem template_resolution_witness:
  "insertShapeData (example_env Unopenable) [] [''cube''] = Inr (False, []) \<and>
   write' (example_env Unopenable) [] example_url
      (example_input ''1.0'' 1 1 [JArray [pixel ''cube'' ''red'' 1]]) =
     Inr (Emit_error ''out.gltf'' ''Can't find or open shape files'', [])"
proof -
  let ?data = "example_input ''1.0'' 1 1 [JArray [pixel ''cube'' ''red'' 1]]"
  have f: "shapeFile (example_env Unopenable) (shape_path ''cube'') = Unopenable" by code_simp
  have v: "input_version ?data = ''1.0''" by code_simp
  have s: "input_width ?data = input_height ?data" by code_simp
  have r: "retained (input_pixels ?data) = [(0, 0, pixel ''cube'' ''red'' 1)]" by code_simp
  have n: "shape_name (0, 0, pixel ''cube'' ''red'' 1) = ''cube''" by code_simp
  have u: "toLocalFile example_url = ''out.gltf''" by code_simp
  note t = template_resolution [of "example_env Unopenable" "''cube''" "[]" "[]", THEN conjunct1,
      rule_format, OF disjI2, OF f]
  from t [THEN conjunct1]
  have 1: "insertShapeData (example_env Unopenable) [] [''cube''] = Inr (False, [])" .
  from t [THEN conjunct2, rule_format, of ?data "(0, 0, pixel ''cube'' ''red'' 1)" "[]" "[]" example_url]
  have 2: "write' (example_env Unopenable) [] example_url ?data =
     Inr (Emit_error ''out.gltf'' ''Can't find or open shape files'', [])"
    using v s r n u by simp
  from 1 2 show ?thesis by simp
qed

text \<open>With one and the same input, a bundle that does not exist and a bundle that cannot be
  opened give the same result of \<^verbatim>\<open>insertShapeData\<close> and of the export, and a bundle that
  opens and does not parse gives a successful export.\<close>

theorem template_resolution_counterexample:
  "write' (example_env Absent) [] example_url
      (example_input ''1.0'' 1 1 [JArray [pixel ''cube'' ''red'' 1]]) =
     Inr (Emit_error ''out.gltf'' ''Can't find or open shape files'', []) \<and>
   write' (example_env Unopenable) [] example_url
      (example_input ''1.0'' 1 1 [JArray [pixel ''cube'' ''red'' 1]]) =
     Inr (Emit_error ''out.gltf'' ''Can't find or open shape files'', []) \<and>
   insertShapeData (example_env Absent) [] [''cube''] =
     insertShapeData (example_env Unopenable) [] [''cube''] \<and>
   insertShapeData (example_env (Readable None)) [] [''cube''] = Inr (True, []) \<and>
   write' (example_env (Readable None)) [] example_url
      (example_input ''1.0'' 1 1 [JArray [pixel ''cube'' ''red'' 1]]) =
     Inr (Emit_exported ''out.gltf'',
          [(''out.gltf'', exported_doc (write' (example_env (Readable None)) [] example_url
              (example_input ''1.0'' 1 1 [JArray [pixel ''cube'' ''red'' 1]])))])"
  by code_simp

text \<open>
  \<^bold>\<open>C10\<close>. \<^verbatim>\<open>insertShapeData\<close> reads \<^verbatim>\<open>shapes[0]\<close> whatever the vector holds: on the empty
  vector the access is out of range. In an export that has passed the checks of the version
  and the size, the shape vector is empty exactly when the grid has no retained cell; the
  export then ends in that fault, and with at least one retained cell (and fewer than
  \<open>2^31\<close>) the vector starts with the shape of the first one and no fault occurs.
\<close>

theorem shapes_first_element:
  assumes "input_version data = ''1.0''" and "input_width data = input_height data"
  shows "(\<forall>exportModel. insertShapeData e exportModel [] = Inl IndexOutOfRange) \<and>
         (retained (input_pixels data) = [] \<longrightarrow>
            buildUniqueVectors (input_pixels data) [] [] [] [] = Inr ([], [], [], []) \<and>
            write' e d fileName data = Inl IndexOutOfRange) \<and>
         (\<forall>x xs. retained (input_pixels data) = x # xs \<and> length (x # xs) < 2 ^ 31 \<longrightarrow>
            (\<exists>rest colors meshes nodes0.
               buildUniqueVectors (input_pixels data) [] [] [] [] =
                 Inr (shape_name x # rest, colors, meshes, nodes0)) \<and>
            write' e d fileName data \<noteq> Inl IndexOutOfRange)"
proof (intro conjI allI impI)
  fix exportModel
  show "insertShapeData e exportModel [] = Inl IndexOutOfRange" by (rule insertShapeData_Nil)
next
  assume r: "retained (input_pixels data) = []"
  then show b: "buildUniqueVectors (input_pixels data) [] [] [] [] = Inr ([], [], [], [])"
    using buildUniqueVectors_retained [of "input_pixels data"] by (simp add: shapes_of_Nil)
  show "write' e d fileName data = Inl IndexOutOfRange"
    by (simp add: write'_valid [OF assms] b insertShapeData_Nil)
next
  fix x xs
  assume a: "retained (input_pixels data) = x # xs \<and> length (x # xs) < 2 ^ 31"
  then have bound: "length (retained (input_pixels data)) < 2 ^ 31" by simp
  from shapes_of_Cons [of x xs] obtain rest where rest: "shapes_of (x # xs) = shape_name x # rest"
    by blast
  have b: "buildUniqueVectors (input_pixels data) [] [] [] [] =
      Inr (shape_name x # rest, colors_of (x # xs), meshes_of (x # xs), map (node_of (x # xs)) (x # xs))"
    using buildUniqueVectors_retained [OF bound] a by (simp add: rest)
  then show "\<exists>rest colors meshes nodes0.
      buildUniqueVectors (input_pixels data) [] [] [] [] =
        Inr (shape_name x # rest, colors, meshes, nodes0)"
    by blast
  show "write' e d fileName data \<noteq> Inl IndexOutOfRange"
    using insertShapeData_no_fault [of "shape_name x # rest" e _ IndexOutOfRange]
    by (auto simp: write'_valid [OF assms] b split: sum.splits prod.splits)
qed

theorem shapes_first_element_witness:
  "retained (input_pixels (example_input ''1.0'' 2 2
      [JArray [empty_pixel, empty_pixel], JArray [empty_pixel, empty_pixel]])) = [] \<and>
   buildUniqueVectors (input_pixels (example_input ''1.0'' 2 2
      [JArray [empty_pixel, empty_pixel], JArray [empty_pixel, empty_pixel]])) [] [] [] [] =
     Inr ([], [], [], []) \<and>
   write' cube_env [] example_url (example_input ''1.0'' 2 2
      [JArray [empty_pixel, empty_pixel], JArray [empty_pixel, empty_pixel]]) =
     Inl IndexOutOfRange"
proof -
  let ?data = "example_input ''1.0'' 2 2
      [JArray [empty_pixel, empty_pixel], JArray [empty_pixel, empty_pixel]]"
  have v: "input_version ?data = ''1.0''" by code_simp
  have s: "input_width ?data = input_height ?data" by code_simp
  have r: "retained (input_pixels ?data) = []" by code_simp
  from shapes_first_element [OF v s, of cube_env "[]" example_url, THEN conjunct2, THEN conjunct1] r
  show ?thesis by simp
qed

end
